theory Spec2Isabelle
  imports Main "HOL-Library.Word"
begin

section \<open>Python values used by samhiveparser.py\<close>

text \<open>
  A \<open>bytes\<close> object is a list of 8-bit words.  A Python \<open>str\<close> is a list of Unicode
  code points (natural numbers); \<open>ascii\<close> embeds an ASCII literal.  Integers obtained
  from \<open>struct.unpack\<close> with an unsigned format are never negative and Python integers
  do not wrap, so they are natural numbers.
\<close>

type_synonym byte = "8 word"
type_synonym bytes = "byte list"
type_synonym pystr = "nat list"

definition ascii :: "string \<Rightarrow> pystr" where
  "ascii s = map of_char s"

text \<open>
  The exceptions that the code can meet.  Each carries the text that \<open>str(e)\<close> yields,
  which is what the f-strings of the source interpolate.  \<open>RegistryError\<close> stands for
  whatever the hive-access library raises and \<open>PrintError\<close> for whatever \<open>print\<close>
  raises; their texts are supplied by the environment.  All of them are instances of
  \<open>Exception\<close>, the class that the handlers of the source catch.
\<close>

datatype py_exn = StructError pystr | OverflowError pystr | RegistryError pystr
  | PrintError pystr

fun exn_str :: "py_exn \<Rightarrow> pystr" where
  "exn_str (StructError m) = m"
| "exn_str (OverflowError m) = m"
| "exn_str (RegistryError m) = m"
| "exn_str (PrintError m) = m"

text \<open>
  \<open>xs[i:j]\<close> for indices that are not negative: the slice is clamped to the
  list and never raises.
\<close>

definition py_slice :: "'a list \<Rightarrow> nat \<Rightarrow> nat \<Rightarrow> 'a list" where
  "py_slice xs i j = take (j - i) (drop i xs)"

subsection \<open>struct.unpack with the little-endian unsigned formats\<close>

datatype fmt = H | I | Q

fun calcsize :: "fmt \<Rightarrow> nat" where
  "calcsize H = 2"
| "calcsize I = 4"
| "calcsize Q = 8"

fun calcsize_text :: "fmt \<Rightarrow> string" where
  "calcsize_text H = ''2''"
| "calcsize_text I = ''4''"
| "calcsize_text Q = ''8''"

fun le_value :: "bytes \<Rightarrow> nat" where
  "le_value [] = 0"
| "le_value (b # bs) = unat b + 256 * le_value bs"

text \<open>
  \<open>struct.unpack("<H", buf)[0]\<close> and its siblings: the buffer must have exactly the
  size of the format, otherwise \<open>struct.error\<close> is raised (message of CPython 3.7 and
  later).
\<close>

definition struct_unpack :: "fmt \<Rightarrow> bytes \<Rightarrow> py_exn + nat" where
  "struct_unpack f buf =
     (if length buf = calcsize f then Inr (le_value buf)
      else Inl (StructError
             (ascii ''unpack requires a buffer of '' @ ascii (calcsize_text f) @ ascii '' bytes'')))"

subsection \<open>bytes.decode('utf-16le', errors='replace')\<close>

definition is_surrogate :: "nat \<Rightarrow> bool" where
  "is_surrogate ch = (0xD800 \<le> ch \<and> ch \<le> 0xDFFF)"

definition is_high_surrogate :: "nat \<Rightarrow> bool" where
  "is_high_surrogate ch = (0xD800 \<le> ch \<and> ch \<le> 0xDBFF)"

definition is_low_surrogate :: "nat \<Rightarrow> bool" where
  "is_low_surrogate ch = (0xDC00 \<le> ch \<and> ch \<le> 0xDFFF)"

definition join_surrogates :: "nat \<Rightarrow> nat \<Rightarrow> nat" where
  "join_surrogates hi lo = 0x10000 + (hi - 0xD800) * 0x400 + (lo - 0xDC00)"

definition code_unit :: "byte \<Rightarrow> byte \<Rightarrow> nat" where
  "code_unit lo hi = unat lo + 256 * unat hi"

text \<open>
  The decoder of CPython with the \<open>replace\<close> handler.  Code units are read two bytes at
  a time.  A unit that is no surrogate is a character.  A lone low surrogate, and a high
  surrogate that is not followed by a low one, are each replaced by U+FFFD and decoding
  goes on after that unit.  A high surrogate with fewer than two bytes behind it, and a
  single trailing byte, are replaced by one U+FFFD that ends the input.
\<close>

fun utf16le_decode :: "bytes \<Rightarrow> pystr" where
  "utf16le_decode [] = []"
| "utf16le_decode [b] = [0xFFFD]"
| "utf16le_decode (lo # hi # rest) =
     (if \<not> is_surrogate (code_unit lo hi) then code_unit lo hi # utf16le_decode rest
      else if \<not> is_high_surrogate (code_unit lo hi) then 0xFFFD # utf16le_decode rest
      else (case rest of
              lo2 # hi2 # rest2 \<Rightarrow>
                (if is_low_surrogate (code_unit lo2 hi2)
                 then join_surrogates (code_unit lo hi) (code_unit lo2 hi2) # utf16le_decode rest2
                 else 0xFFFD # utf16le_decode rest)
            | _ \<Rightarrow> [0xFFFD]))"

subsection \<open>str.strip()\<close>

text \<open>The code points for which \<open>str.isspace\<close> holds.\<close>

definition isspace :: "nat \<Rightarrow> bool" where
  "isspace c =
     ((0x09 \<le> c \<and> c \<le> 0x0D) \<or> (0x1C \<le> c \<and> c \<le> 0x20) \<or> c = 0x85 \<or> c = 0xA0
      \<or> c = 0x1680 \<or> (0x2000 \<le> c \<and> c \<le> 0x200A) \<or> c = 0x2028 \<or> c = 0x2029
      \<or> c = 0x202F \<or> c = 0x205F \<or> c = 0x3000)"

definition strip :: "pystr \<Rightarrow> pystr" where
  "strip s = rev (dropWhile isspace (rev (dropWhile isspace s)))"

section \<open>decode_username\<close>

text \<open>The body of the \<open>try\<close> block, lines 17 to 26.\<close>

definition decode_username_try :: "bytes \<Rightarrow> py_exn + pystr" where
  "decode_username_try v_blob =
     (case struct_unpack H (py_slice v_blob 0x0C 0x0E) of
        Inl e \<Rightarrow> Inl e
      | Inr username_length_chars \<Rightarrow>
          (let username_length_bytes = username_length_chars * 2 in
           case struct_unpack I (py_slice v_blob 0x10 0x14) of
             Inl e \<Rightarrow> Inl e
           | Inr username_offset \<Rightarrow>
               (let username_data =
                      py_slice v_blob username_offset (username_offset + username_length_bytes);
                    username = utf16le_decode username_data
                in Inr (strip username))))"

text \<open>
  The function itself: \<open>except Exception as e\<close> turns every exception of the body into
  the returned message.
\<close>

definition decode_username :: "bytes \<Rightarrow> py_exn + pystr" where
  "decode_username v_blob =
     (case decode_username_try v_blob of
        Inr username \<Rightarrow> Inr username
      | Inl e \<Rightarrow> Inr (ascii ''Error decoding username: '' @ exn_str e))"

section \<open>datetime\<close>

text \<open>
  The part of the \<open>datetime\<close> module that line 48 and 49 use: the proleptic Gregorian
  ordinal of a date (day 1 is 0001-01-01), its inverse, the normalising constructor of
  \<open>timedelta\<close>, the addition of a \<open>timedelta\<close> to a \<open>datetime\<close>, and \<open>strftime\<close> for
  the format \<open>%Y-%m-%d %H:%M:%S\<close>.
\<close>

record datetime =
  year :: nat
  month :: nat
  day :: nat
  hour :: nat
  minute :: nat
  second :: nat
  microsecond :: nat

record timedelta =
  days :: nat
  seconds :: nat
  microseconds :: nat

definition MAXORDINAL :: nat where
  "MAXORDINAL = 3652059"

definition is_leap :: "nat \<Rightarrow> bool" where
  "is_leap y = (y mod 4 = 0 \<and> (y mod 100 \<noteq> 0 \<or> y mod 400 = 0))"

definition days_before_year :: "nat \<Rightarrow> nat" where
  "days_before_year y = (y - 1) * 365 + (y - 1) div 4 - (y - 1) div 100 + (y - 1) div 400"

definition DAYS_IN_MONTH :: "nat list" where
  "DAYS_IN_MONTH = [0, 31, 28, 31, 30, 31, 30, 31, 31, 30, 31, 30, 31]"

definition DAYS_BEFORE_MONTH :: "nat list" where
  "DAYS_BEFORE_MONTH = [0, 0, 31, 59, 90, 120, 151, 181, 212, 243, 273, 304, 334]"

definition days_before_month :: "nat \<Rightarrow> nat \<Rightarrow> nat" where
  "days_before_month y m = DAYS_BEFORE_MONTH ! m + (if m > 2 \<and> is_leap y then 1 else 0)"

definition ymd2ord :: "nat \<Rightarrow> nat \<Rightarrow> nat \<Rightarrow> nat" where
  "ymd2ord y m d = days_before_year y + days_before_month y m + d"

definition days_in_month :: "nat \<Rightarrow> nat \<Rightarrow> nat" where
  "days_in_month y m = (if m = 2 \<and> is_leap y then 29 else DAYS_IN_MONTH ! m)"

text \<open>
  The end of \<open>_ord2ymd\<close>: month and day of the \<open>n\<close>-th day (counted from 0) of a year.
  The month is estimated as \<open>(n + 50) >> 5\<close> and corrected downwards when the estimate
  is too large.
\<close>

definition find_month_day :: "nat \<Rightarrow> bool \<Rightarrow> nat \<times> nat" where
  "find_month_day n leapyear =
     (let m = (n + 50) div 32;
          preceding = DAYS_BEFORE_MONTH ! m + (if m > 2 \<and> leapyear then 1 else 0)
      in if preceding > n
         then (m - 1,
               n - (preceding - (DAYS_IN_MONTH ! (m - 1)
                                   + (if m - 1 = 2 \<and> leapyear then 1 else 0))) + 1)
         else (m, n - preceding + 1))"

text \<open>
  \<open>_ord2ymd\<close>: the ordinal is split into 400-year, 100-year and 4-year cycles and
  single years; the last day of a 4-year or 400-year cycle is the 31st of December of
  the year before.
\<close>

definition ord2ymd :: "nat \<Rightarrow> nat \<times> nat \<times> nat" where
  "ord2ymd ordinal =
     (let n = ordinal - 1;
          n400 = n div 146097; n = n mod 146097;
          n100 = n div 36524; n = n mod 36524;
          n4 = n div 1461; n = n mod 1461;
          n1 = n div 365; n = n mod 365;
          y = n400 * 400 + 1 + n100 * 100 + n4 * 4 + n1
      in if n1 = 4 \<or> n100 = 4 then (y - 1, 12, 31)
         else
           (let leapyear = (n1 = 3 \<and> (n4 \<noteq> 24 \<or> n100 = 3))
            in case find_month_day n leapyear of (m, d) \<Rightarrow> (y, m, d)))"

text \<open>The decimal digits of a number, as \<open>%d\<close> formats it.\<close>

fun decimal :: "nat \<Rightarrow> pystr" where
  "decimal n = (if n < 10 then [48 + n] else decimal (n div 10) @ [48 + n mod 10])"

text \<open>
  \<open>timedelta(microseconds=us)\<close> for an integer that is not negative: the value is
  normalised, and more than 999999999 days raise \<open>OverflowError\<close>.
\<close>

definition timedelta_microseconds :: "nat \<Rightarrow> py_exn + timedelta" where
  "timedelta_microseconds us =
     (let d = us div 86400000000 in
      if d > 999999999
      then Inl (OverflowError
                  (ascii ''days='' @ decimal d @ ascii ''; must have magnitude <= 999999999''))
      else Inr \<lparr>days = d, seconds = (us div 1000000) mod 86400,
                microseconds = us mod 1000000\<rparr>)"

text \<open>
  \<open>datetime + timedelta\<close>: the sum is formed on ordinal days, seconds and microseconds
  with carries; a day beyond 9999-12-31 raises \<open>OverflowError\<close> (message of the C
  implementation of the module).
\<close>

definition datetime_add :: "datetime \<Rightarrow> timedelta \<Rightarrow> py_exn + datetime" where
  "datetime_add dt td =
     (let us = microsecond dt + microseconds td;
          s = hour dt * 3600 + minute dt * 60 + second dt + seconds td + us div 1000000;
          d = ymd2ord (year dt) (month dt) (day dt) + days td + s div 86400
      in if 0 < d \<and> d \<le> MAXORDINAL
         then (case ord2ymd d of
                 (y, m, dd) \<Rightarrow>
                   Inr \<lparr>year = y, month = m, day = dd,
                        hour = (s mod 86400) div 3600, minute = ((s mod 86400) mod 3600) div 60,
                        second = (s mod 86400) mod 60, microsecond = us mod 1000000\<rparr>)
         else Inl (OverflowError (ascii ''date value out of range'')))"

text \<open>A number as \<open>w\<close> decimal digits with leading zeros.\<close>

primrec zpad :: "nat \<Rightarrow> nat \<Rightarrow> pystr" where
  "zpad 0 n = []"
| "zpad (Suc w) n = zpad w (n div 10) @ [48 + n mod 10]"

text \<open>
  \<open>dt.strftime("%Y-%m-%d %H:%M:%S")\<close>.  The year has four digits for the years 1000 to
  9999, which are the only ones that the sum above yields from 1601-01-01 on.
\<close>

definition strftime :: "datetime \<Rightarrow> pystr" where
  "strftime dt =
     zpad 4 (year dt) @ ascii ''-'' @ zpad 2 (month dt) @ ascii ''-'' @ zpad 2 (day dt)
     @ ascii '' '' @ zpad 2 (hour dt) @ ascii '':'' @ zpad 2 (minute dt) @ ascii '':''
     @ zpad 2 (second dt)"

definition epoch_1601 :: datetime where
  "epoch_1601 = \<lparr>year = 1601, month = 1, day = 1, hour = 0, minute = 0, second = 0,
                  microsecond = 0\<rparr>"

section \<open>decode_f_value\<close>

text \<open>Lines 43 to 49: the last login time as text.\<close>

definition decode_last_login :: "bytes \<Rightarrow> py_exn + pystr" where
  "decode_last_login f_blob =
     (let last_login_bytes = py_slice f_blob 8 16 in
      case struct_unpack Q last_login_bytes of
        Inl e \<Rightarrow> Inl e
      | Inr timestamp \<Rightarrow>
          if timestamp = 0 then Inr (ascii ''Never'')
          else (case timedelta_microseconds (timestamp div 10) of
                  Inl e \<Rightarrow> Inl e
                | Inr td \<Rightarrow>
                    (case datetime_add epoch_1601 td of
                       Inl e \<Rightarrow> Inl e
                     | Inr last_login_dt \<Rightarrow> Inr (strftime last_login_dt))))"

text \<open>Lines 51 to 53: the password policy as text.\<close>

definition decode_password_policy :: "bytes \<Rightarrow> py_exn + pystr" where
  "decode_password_policy f_blob =
     (case struct_unpack I (py_slice f_blob 24 28) of
        Inl e \<Rightarrow> Inl e
      | Inr account_flags \<Rightarrow>
          (let password_not_required = (and account_flags 0x20 \<noteq> 0)
           in Inr (if password_not_required then ascii ''No Password Required''
                   else ascii ''Password Required'')))"

text \<open>The body of the \<open>try\<close> block: the two parts in sequence.\<close>

definition decode_f_value_try :: "bytes \<Rightarrow> py_exn + pystr \<times> pystr" where
  "decode_f_value_try f_blob =
     (case decode_last_login f_blob of
        Inl e \<Rightarrow> Inl e
      | Inr last_login \<Rightarrow>
          (case decode_password_policy f_blob of
             Inl e \<Rightarrow> Inl e
           | Inr password_policy \<Rightarrow> Inr (last_login, password_policy)))"

definition decode_f_value :: "bytes \<Rightarrow> py_exn + pystr \<times> pystr" where
  "decode_f_value f_blob =
     (case decode_f_value_try f_blob of
        Inr r \<Rightarrow> Inr r
      | Inl e \<Rightarrow> Inr (ascii ''Unknown'', ascii ''Error: '' @ exn_str e))"

section \<open>parse_sam_hive\<close>

text \<open>
  The hive-access library and the console are outside the program.  A subkey is the
  outcome of \<open>subkey.name()\<close> and, for every value name \<open>n\<close>, the outcome of
  \<open>subkey.value(n).value()\<close>: the result, or the exception that the library raises.
  A registry gives, for a key path, the outcome of \<open>reg.open(path)\<close>, and for a key
  that opens the outcome of its \<open>subkeys()\<close>.  Standard output is the list of the
  strings printed so far.  A console says, for the output so far and a text, whether
  \<open>print\<close> writes the text or raises; a \<open>print\<close> that raises writes nothing.
\<close>

record subkey =
  subkey_name :: "py_exn + pystr"
  subkey_value :: "pystr \<Rightarrow> py_exn + bytes"



type_synonym stdout = "pystr list"

type_synonym console = "stdout \<Rightarrow> pystr \<Rightarrow> py_exn option"

text \<open>
  A statement takes the output so far and gives the output after it, together with the
  exception that leaves it, if any.
\<close>

type_synonym stmt = "stdout \<Rightarrow> py_exn option \<times> stdout"

definition py_raise :: "py_exn \<Rightarrow> stmt" where
  "py_raise e out = (Some e, out)"

definition py_seq :: "stmt \<Rightarrow> stmt \<Rightarrow> stmt" where
  "py_seq a b out = (case a out of (None, out') \<Rightarrow> b out' | (Some e, out') \<Rightarrow> (Some e, out'))"

text \<open>\<open>try: body except Exception as e: handler\<close>.\<close>

definition try_except :: "stmt \<Rightarrow> (py_exn \<Rightarrow> stmt) \<Rightarrow> stmt" where
  "try_except body handler out =
     (case body out of (None, out') \<Rightarrow> (None, out') | (Some e, out') \<Rightarrow> handler e out')"

definition py_print :: "console \<Rightarrow> pystr \<Rightarrow> stmt" where
  "py_print console s out =
     (case console out s of None \<Rightarrow> (None, out @ [s]) | Some e \<Rightarrow> (Some e, out))"

text \<open>Lines 83 to 91: the body of the inner \<open>try\<close>.\<close>

definition subkey_try :: "console \<Rightarrow> subkey \<Rightarrow> stmt" where
  "subkey_try console k =
     (case subkey_value k (ascii ''V'') of
        Inl e \<Rightarrow> py_raise e
      | Inr v_val \<Rightarrow>
          (case subkey_value k (ascii ''F'') of
             Inl e \<Rightarrow> py_raise e
           | Inr f_val \<Rightarrow>
               (case decode_username v_val of
                  Inl e \<Rightarrow> py_raise e
                | Inr username \<Rightarrow>
                    (case decode_f_value f_val of
                       Inl e \<Rightarrow> py_raise e
                     | Inr (last_login, password_policy) \<Rightarrow>
                         py_seq (py_print console (ascii ''Username: '' @ username))
                           (py_seq (py_print console (ascii ''Last Login: '' @ last_login))
                              (py_print console
                                 (ascii ''Password Policy: '' @ password_policy)))))))"

text \<open>
  Lines 81 to 93: one pass of the loop for a subkey that is not skipped.  The header is
  printed before the \<open>try\<close>; the handler asks for the name again and prints the error
  line.
\<close>

definition process_subkey :: "console \<Rightarrow> subkey \<Rightarrow> stmt" where
  "process_subkey console k =
     (case subkey_name k of
        Inl e \<Rightarrow> py_raise e
      | Inr name \<Rightarrow>
          py_seq (py_print console (10 # ascii ''User RID: '' @ name))
            (try_except (subkey_try console k)
               (\<lambda>e. case subkey_name k of
                       Inl e' \<Rightarrow> py_raise e'
                     | Inr name \<Rightarrow>
                         py_print console
                           (ascii ''Error processing subkey '' @ name @ ascii '': ''
                              @ exn_str e))))"

text \<open>Lines 77 to 93: the loop over the subkeys.\<close>

fun user_loop :: "console \<Rightarrow> subkey list \<Rightarrow> stmt" where
  "user_loop console [] out = (None, out)"
| "user_loop console (k # ks) out =
     (case subkey_name k of
        Inl e \<Rightarrow> py_raise e out
      | Inr name \<Rightarrow>
          if name = ascii ''Names'' then user_loop console ks out
          else py_seq (process_subkey console k) (user_loop console ks) out)"


section \<open>Fields of the blobs and example inputs\<close>

text \<open>
  The little-endian fields of a blob as the format describes them, byte by byte, and the
  UTF-16LE encoding of a string whose characters take one code unit each.
\<close>

definition u16_at :: "bytes \<Rightarrow> nat \<Rightarrow> nat" where
  "u16_at b i = unat (b ! i) + 256 * unat (b ! (i + 1))"

definition u32_at :: "bytes \<Rightarrow> nat \<Rightarrow> nat" where
  "u32_at b i = unat (b ! i) + 256 * unat (b ! (i + 1)) + 65536 * unat (b ! (i + 2))
                 + 16777216 * unat (b ! (i + 3))"

definition u64_at :: "bytes \<Rightarrow> nat \<Rightarrow> nat" where
  "u64_at b i = u32_at b i + 4294967296 * u32_at b (i + 4)"

fun utf16le_encode :: "pystr \<Rightarrow> bytes" where
  "utf16le_encode [] = []"
| "utf16le_encode (c # cs) = of_nat (c mod 256) # of_nat (c div 256) # utf16le_encode cs"

definition printable_ascii :: "nat \<Rightarrow> bool" where
  "printable_ascii c = (0x20 \<le> c \<and> c \<le> 0x7E)"

text \<open>
  A \<open>V\<close> blob of 40 bytes: length 4 at 0x0C, offset 0x20 at 0x10, and the name
  \<open>Jane\<close> in UTF-16LE at 0x20.
\<close>

definition jane_v_blob :: bytes where
  "jane_v_blob =
     [0, 0, 0, 0, 0, 0, 0, 0, 0, 0, 0, 0, 4, 0, 0, 0,
      0x20, 0, 0, 0, 0, 0, 0, 0, 0, 0, 0, 0, 0, 0, 0, 0,
      0x4A, 0, 0x61, 0, 0x6E, 0, 0x65, 0]"

text \<open>The same blob cut after 36 bytes: the declared range 0x20 to 0x28 leaves the blob.\<close>

definition cut_v_blob :: bytes where
  "cut_v_blob =
     [0, 0, 0, 0, 0, 0, 0, 0, 0, 0, 0, 0, 4, 0, 0, 0,
      0x20, 0, 0, 0, 0, 0, 0, 0, 0, 0, 0, 0, 0, 0, 0, 0,
      0x4A, 0, 0x61, 0]"

text \<open>The preamble alone, 20 bytes: the declared offset 0x20 is past the end.\<close>

definition preamble_v_blob :: bytes where
  "preamble_v_blob =
     [0, 0, 0, 0, 0, 0, 0, 0, 0, 0, 0, 0, 4, 0, 0, 0,
      0x20, 0, 0, 0]"

text \<open>
  \<open>F\<close> blobs of 28 bytes.  The first has a zero FILETIME and the flags 0x00000020, the
  second the FILETIME 129021310000000000 and the flags 0x00000220, the third a zero
  FILETIME and the flags 0x00000200, the fourth the FILETIME 0x7FFFFFFFFFFFFFFF and the
  flags 0x00000020.  The last blob is 16 zero bytes: it ends before the flags.
\<close>

definition never_f_blob :: bytes where
  "never_f_blob =
     [0, 0, 0, 0, 0, 0, 0, 0, 0, 0, 0, 0, 0, 0, 0, 0,
      0, 0, 0, 0, 0, 0, 0, 0, 0x20, 0, 0, 0]"

definition logon_f_blob :: bytes where
  "logon_f_blob =
     [0, 0, 0, 0, 0, 0, 0, 0, 0, 108, 1, 167, 50, 96, 202, 1,
      0, 0, 0, 0, 0, 0, 0, 0, 0x20, 0x02, 0, 0]"

definition required_f_blob :: bytes where
  "required_f_blob =
     [0, 0, 0, 0, 0, 0, 0, 0, 0, 0, 0, 0, 0, 0, 0, 0,
      0, 0, 0, 0, 0, 0, 0, 0, 0x00, 0x02, 0, 0]"

definition overflow_f_blob :: bytes where
  "overflow_f_blob =
     [0, 0, 0, 0, 0, 0, 0, 0, 0xFF, 0xFF, 0xFF, 0xFF, 0xFF, 0xFF, 0xFF, 0x7F,
      0, 0, 0, 0, 0, 0, 0, 0, 0x20, 0, 0, 0]"

definition short_f_blob :: bytes where
  "short_f_blob = [0, 0, 0, 0, 0, 0, 0, 0, 0, 0, 0, 0, 0, 0, 0, 0]"

text \<open>
  A \<open>V\<close> blob of 44 bytes: length 6 at 0x0C, offset 0x20 at 0x10, and the name \<open>Jane\<close>
  with one space before and one after it in UTF-16LE at 0x20.
\<close>

definition padded_v_blob :: bytes where
  "padded_v_blob =
     [0, 0, 0, 0, 0, 0, 0, 0, 0, 0, 0, 0, 6, 0, 0, 0,
      0x20, 0, 0, 0, 0, 0, 0, 0, 0, 0, 0, 0, 0, 0, 0, 0,
      0x20, 0, 0x4A, 0, 0x61, 0, 0x6E, 0, 0x65, 0, 0x20, 0]"

text \<open>
  A \<open>V\<close> blob of 40 bytes that holds the name \<open>Ren\<close> followed by the letter e acute
  (code point 233) at 0x20.
\<close>

definition accent_v_blob :: bytes where
  "accent_v_blob =
     [0, 0, 0, 0, 0, 0, 0, 0, 0, 0, 0, 0, 4, 0, 0, 0,
      0x20, 0, 0, 0, 0, 0, 0, 0, 0, 0, 0, 0, 0, 0, 0, 0,
      0x52, 0, 0x65, 0, 0x6E, 0, 0xE9, 0]"

text \<open>
  Subkeys for the examples.  The first is the account 1001 with the \<open>Jane\<close> blob as
  \<open>V\<close> and the zero-FILETIME blob as \<open>F\<close>.  The second, 1002, has the same \<open>V\<close> but
  no \<open>F\<close>: the library raises for it.  The third is named \<open>Names\<close> and carries the
  blobs of the first.  The fourth has a name with the letter e acute, the fifth is the
  account 1004 whose \<open>V\<close> blob holds such a name.  The library cannot read the name
  of the sixth.
\<close>

definition jane_subkey :: subkey where
  "jane_subkey =
     \<lparr>subkey_name = Inr (ascii ''1001''),
      subkey_value = (\<lambda>n. if n = ascii ''V'' then Inr jane_v_blob
                           else if n = ascii ''F'' then Inr never_f_blob
                           else Inl (RegistryError (ascii ''no such value'')))\<rparr>"

definition no_f_subkey :: subkey where
  "no_f_subkey =
     \<lparr>subkey_name = Inr (ascii ''1002''),
      subkey_value = (\<lambda>n. if n = ascii ''V'' then Inr jane_v_blob
                           else Inl (RegistryError (ascii ''no such value'')))\<rparr>"

definition names_subkey :: subkey where
  "names_subkey =
     \<lparr>subkey_name = Inr (ascii ''Names''),
      subkey_value = (\<lambda>n. if n = ascii ''V'' then Inr jane_v_blob
                           else if n = ascii ''F'' then Inr never_f_blob
                           else Inl (RegistryError (ascii ''no such value'')))\<rparr>"

definition accent_subkey :: subkey where
  "accent_subkey =
     \<lparr>subkey_name = Inr (ascii ''Ren'' @ [233]),
      subkey_value = (\<lambda>n. if n = ascii ''V'' then Inr jane_v_blob
                           else if n = ascii ''F'' then Inr never_f_blob
                           else Inl (RegistryError (ascii ''no such value'')))\<rparr>"

definition rene_subkey :: subkey where
  "rene_subkey =
     \<lparr>subkey_name = Inr (ascii ''1004''),
      subkey_value = (\<lambda>n. if n = ascii ''V'' then Inr accent_v_blob
                           else if n = ascii ''F'' then Inr never_f_blob
                           else Inl (RegistryError (ascii ''no such value'')))\<rparr>"

definition unnamed_subkey :: subkey where
  "unnamed_subkey =
     \<lparr>subkey_name = Inl (RegistryError (ascii ''cannot read the key name'')),
      subkey_value = (\<lambda>n. if n = ascii ''V'' then Inr jane_v_blob
                           else if n = ascii ''F'' then Inr never_f_blob
                           else Inl (RegistryError (ascii ''no such value'')))\<rparr>"

text \<open>
  Three consoles: the first writes every text, the second writes ASCII text only and
  raises for any other, the third has room for three lines and raises from then on.
\<close>

definition plain_console :: console where
  "plain_console out s = None"

definition ascii_console :: console where
  "ascii_console out s =
     (if list_all (\<lambda>c. c < 128) s then None
      else Some (PrintError (ascii ''character maps to <undefined>'')))"

definition full_console :: console where
  "full_console out s =
     (if length out < 3 then None
      else Some (PrintError (ascii ''[Errno 28] No space left on device'')))"

text \<open>
  The lines of a block.  A line of the output is the header of a block when it starts
  with a newline.
\<close>

definition header_line :: "pystr \<Rightarrow> pystr" where
  "header_line name = 10 # ascii ''User RID: '' @ name"

definition error_line :: "pystr \<Rightarrow> py_exn \<Rightarrow> pystr" where
  "error_line name e = ascii ''Error processing subkey '' @ name @ ascii '': '' @ exn_str e"

definition username_line :: "pystr \<Rightarrow> pystr" where
  "username_line username = ascii ''Username: '' @ username"

definition last_login_line :: "pystr \<Rightarrow> pystr" where
  "last_login_line last_login = ascii ''Last Login: '' @ last_login"

definition password_policy_line :: "pystr \<Rightarrow> pystr" where
  "password_policy_line password_policy = ascii ''Password Policy: '' @ password_policy"

definition is_header :: "pystr \<Rightarrow> bool" where
  "is_header l = (take 1 l = [10])"

definition header :: "subkey \<Rightarrow> pystr" where
  "header k = (case subkey_name k of Inr name \<Rightarrow> header_line name | Inl e \<Rightarrow> [])"

definition not_Names :: "subkey \<Rightarrow> bool" where
  "not_Names k = (subkey_name k \<noteq> Inr (ascii ''Names''))"




section \<open>Dates counted by the lengths of years and months\<close>

text \<open>
  A count of days that does not go through ordinals: the days of the whole years since
  1601, the days of the whole months of the year before the given month, and the days
  of that month before the given day.  A valid date and time within the years that \<open>datetime\<close> can represent,
  the microseconds between 1601-01-01 00:00:00 and such a time, and the first FILETIME
  (in units of 100 nanoseconds) that lies after 9999-12-31 23:59:59.999999.
\<close>

definition year_days :: "nat \<Rightarrow> nat" where
  "year_days y = (if is_leap y then 366 else 365)"

definition days_since_1601 :: "nat \<Rightarrow> nat \<Rightarrow> nat \<Rightarrow> nat" where
  "days_since_1601 y m d =
     sum_list (map year_days [1601..<y]) + sum_list (map (days_in_month y) [1..<m]) + (d - 1)"

definition valid_datetime :: "datetime \<Rightarrow> bool" where
  "valid_datetime dt =
     (1601 \<le> year dt \<and> year dt \<le> 9999 \<and> 1 \<le> month dt \<and> month dt \<le> 12 \<and> 1 \<le> day dt
      \<and> day dt \<le> days_in_month (year dt) (month dt)
      \<and> hour dt < 24 \<and> minute dt < 60 \<and> second dt < 60 \<and> microsecond dt < 1000000)"

definition microseconds_since_1601 :: "datetime \<Rightarrow> nat" where
  "microseconds_since_1601 dt =
     ((days_since_1601 (year dt) (month dt) (day dt) * 24 + hour dt) * 60 + minute dt) * 60000000
     + second dt * 1000000 + microsecond dt"

definition FILETIME_END :: nat where
  "FILETIME_END = 2650467744000000000"

section \<open>Slices and unpacking\<close>

lemma length_py_slice: "length (py_slice xs i j) = min (j - i) (length xs - i)"
  by (simp add: py_slice_def)

lemma take_drop_step:
  "i < length xs \<Longrightarrow> take (Suc n) (drop i xs) = xs ! i # take n (drop (Suc i) xs)"
  by (simp flip: Cons_nth_drop_Suc)

lemma py_slice_2:
  assumes "j = i + 2" "j \<le> length xs"
  shows "py_slice xs i j = [xs ! i, xs ! (i + 1)]"
proof -
  have "take (Suc (Suc 0)) (drop i xs) = [xs ! i, xs ! (i + 1)]"
    using assms by (simp add: take_drop_step)
  then show ?thesis using assms by (simp add: py_slice_def numeral_2_eq_2)
qed

lemma py_slice_4:
  assumes "j = i + 4" "j \<le> length xs"
  shows "py_slice xs i j = [xs ! i, xs ! (i + 1), xs ! (i + 2), xs ! (i + 3)]"
proof -
  have "py_slice xs i j = take 4 (drop i xs)"
    using assms by (simp add: py_slice_def)
  also have "\<dots> = take (Suc (Suc (Suc (Suc 0)))) (drop i xs)"
    by (simp add: eval_nat_numeral)
  also have "\<dots> = [xs ! i, xs ! (i + 1), xs ! (i + 2), xs ! (i + 3)]"
    using assms by (simp add: take_drop_step eval_nat_numeral)
  finally show ?thesis .
qed

lemma py_slice_8:
  assumes "j = i + 8" "j \<le> length xs"
  shows "py_slice xs i j = py_slice xs i (i + 4) @ py_slice xs (i + 4) (i + 8)"
proof -
  have "take (4 + 4) (drop i xs) = take 4 (drop i xs) @ take 4 (drop 4 (drop i xs))"
    by (rule take_add)
  then show ?thesis using assms by (simp add: py_slice_def add.commute)
qed

lemma le_value_append: "le_value (xs @ ys) = le_value xs + 256 ^ length xs * le_value ys"
  by (induction xs) (simp_all add: algebra_simps)

lemma unpack_H:
  assumes "j = i + 2" "j \<le> length v"
  shows "struct_unpack H (py_slice v i j) = Inr (u16_at v i)"
  by (simp add: struct_unpack_def py_slice_2 [OF assms] u16_at_def)

lemma unpack_I:
  assumes "j = i + 4" "j \<le> length v"
  shows "struct_unpack I (py_slice v i j) = Inr (u32_at v i)"
  by (simp add: struct_unpack_def py_slice_4 [OF assms] u32_at_def)

lemma unpack_Q:
  assumes "j = i + 8" "j \<le> length v"
  shows "struct_unpack Q (py_slice v i j) = Inr (u64_at v i)"
proof -
  have a: "py_slice v i (i + 4) = [v ! i, v ! (i + 1), v ! (i + 2), v ! (i + 3)]"
    using assms by (intro py_slice_4) simp_all
  have b: "py_slice v (i + 4) (i + 8) = [v ! (i + 4), v ! (i + 4 + 1), v ! (i + 4 + 2), v ! (i + 4 + 3)]"
    using assms by (intro py_slice_4) simp_all
  show ?thesis
    unfolding py_slice_8 [OF assms] a b
    by (simp add: struct_unpack_def u64_at_def u32_at_def)
qed

lemma unpack_short:
  "length v < j \<Longrightarrow> j - i = calcsize f \<Longrightarrow>
   struct_unpack f (py_slice v i j) =
     Inl (StructError (ascii ''unpack requires a buffer of '' @ ascii (calcsize_text f) @ ascii '' bytes''))"
  by (cases f) (auto simp add: struct_unpack_def length_py_slice min_def)

lemma u16_bound: "u16_at v i < 65536"
proof -
  have "unat (v ! i) < 256" "unat (v ! (i + 1)) < 256"
    using unsigned_less [of "v ! i"] unsigned_less [of "v ! (i + 1)"] by simp_all
  then show ?thesis by (simp add: u16_at_def)
qed

lemma u32_bound: "u32_at v i < 4294967296"
proof -
  have "unat (v ! i) < 256" "unat (v ! (i + 1)) < 256" "unat (v ! (i + 2)) < 256" "unat (v ! (i + 3)) < 256"
    using unsigned_less [of "v ! i"] unsigned_less [of "v ! (i + 1)"]
      unsigned_less [of "v ! (i + 2)"] unsigned_less [of "v ! (i + 3)"] by simp_all
  then show ?thesis by (simp add: u32_at_def)
qed

lemma u64_bound: "u64_at v i < 18446744073709551616"
  using u32_bound [of v i] u32_bound [of v "i + 4"] by (simp add: u64_at_def)

lemma decode_username_try_ok:
  assumes "20 \<le> length v"
  shows "decode_username_try v =
           Inr (strip (utf16le_decode (py_slice v (u32_at v 16) (u32_at v 16 + u16_at v 12 * 2))))"
proof -
  have h: "struct_unpack H (py_slice v 12 14) = Inr (u16_at v 12)"
    using unpack_H [of 14 12 v] assms by simp
  have i: "struct_unpack I (py_slice v 16 20) = Inr (u32_at v 16)"
    using unpack_I [of 20 16 v] assms by simp
  show ?thesis by (simp add: decode_username_try_def h i)
qed

lemma decode_username_try_short:
  assumes "length v < 20"
  shows "\<exists>e. decode_username_try v = Inl e"
proof (cases "length v < 14")
  case True
  then show ?thesis
    using unpack_short [of v 14 12 H] by (simp add: decode_username_try_def)
next
  case False
  then have h: "struct_unpack H (py_slice v 12 14) = Inr (u16_at v 12)"
    using unpack_H [of 14 12 v] by simp
  show ?thesis
    using unpack_short [of v 20 16 I] assms by (simp add: decode_username_try_def h)
qed


lemma decode_username_of_try:
  "decode_username_try v = Inr s \<Longrightarrow> decode_username v = Inr s"
  by (simp add: decode_username_def)

lemma py_slice_beyond: "length xs \<le> j \<Longrightarrow> py_slice xs i j = drop i xs"
  by (simp add: py_slice_def)

lemma strip_Nil: "strip [] = []"
  by (simp add: strip_def)

lemmas blob_eval =
  u16_at_def u32_at_def u64_at_def ascii_def strip_def isspace_def py_slice_def
  is_surrogate_def is_high_surrogate_def is_low_surrogate_def code_unit_def

lemma decode_username_try_fails_iff:
  "(\<exists>e. decode_username_try v = Inl e) \<longleftrightarrow> length v < 0x14"
proof (cases "length v < 0x14")
  case True
  then show ?thesis using decode_username_try_short [of v] by simp
next
  case False
  then show ?thesis using decode_username_try_ok [of v] by simp
qed

lemma code_unit_encode:
  "c < 65536 \<Longrightarrow> code_unit (of_nat (c mod 256)) (of_nat (c div 256)) = c"
  by (simp add: code_unit_def unat_of_nat take_bit_eq_mod)

lemma utf16le_decode_encode:
  "\<forall>c\<in>set s. c < 0xD800 \<Longrightarrow> utf16le_decode (utf16le_encode s) = s"
  by (induction s) (simp_all add: code_unit_encode is_surrogate_def)

lemma length_utf16le_encode: "length (utf16le_encode s) = 2 * length s"
  by (induction s) simp_all

section \<open>The username decoder\<close>

text \<open>
  Claim C10.  For every \<open>V\<close> blob of at least 0x14 bytes the body of \<open>decode_username\<close>
  raises nothing, whatever range the preamble declares: the function returns the stripped
  decoding of the slice, the slice holds only the bytes that are present (so it is cut
  at the end of the blob when the declared range goes beyond it), and an offset at or
  past the end of the blob gives the empty string.
\<close>

theorem decode_username_clamps:
  assumes "0x14 \<le> length v"
  shows "decode_username_try v =
           Inr (strip (utf16le_decode (take (2 * u16_at v 0x0C) (drop (u32_at v 0x10) v))))
         \<and> decode_username v = decode_username_try v
         \<and> length (take (2 * u16_at v 0x0C) (drop (u32_at v 0x10) v))
             = min (2 * u16_at v 0x0C) (length v - u32_at v 0x10)
         \<and> (length v \<le> u32_at v 0x10 \<longrightarrow> decode_username v = Inr [])"
proof -
  have t: "decode_username_try v =
             Inr (strip (utf16le_decode (take (2 * u16_at v 0x0C) (drop (u32_at v 0x10) v))))"
    using decode_username_try_ok [of v] assms by (simp add: py_slice_def mult.commute)
  have d: "decode_username v = decode_username_try v"
    using t by (simp add: decode_username_def)
  have e: "decode_username v = Inr []" if "length v \<le> u32_at v 0x10"
    using that t d by (simp add: strip_Nil)
  show ?thesis using t d e by simp
qed

theorem decode_username_clamps_witness:
  "0x14 \<le> length cut_v_blob
   \<and> length cut_v_blob < u32_at cut_v_blob 0x10 + 2 * u16_at cut_v_blob 0x0C
   \<and> decode_username_try cut_v_blob = Inr (ascii ''Ja'')
   \<and> 0x14 \<le> length preamble_v_blob
   \<and> length preamble_v_blob \<le> u32_at preamble_v_blob 0x10
   \<and> decode_username preamble_v_blob = Inr []"
proof -
  have a: "0x14 \<le> length cut_v_blob" by (simp add: cut_v_blob_def)
  have b: "0x14 \<le> length preamble_v_blob" by (simp add: preamble_v_blob_def)
  have c: "length preamble_v_blob \<le> u32_at preamble_v_blob 0x10"
    by (simp add: preamble_v_blob_def u32_at_def)
  have "decode_username_try cut_v_blob = Inr (ascii ''Ja'')"
    using decode_username_clamps [OF a] by (simp add: cut_v_blob_def blob_eval)
  moreover have "decode_username preamble_v_blob = Inr []"
    using decode_username_clamps [OF b] c by (simp add: strip_Nil)
  moreover have "length cut_v_blob < u32_at cut_v_blob 0x10 + 2 * u16_at cut_v_blob 0x0C"
    by (simp add: cut_v_blob_def blob_eval)
  ultimately show ?thesis using a b c by simp
qed

text \<open>
  Claim C1, as the code has it.  A \<open>V\<close> blob with a readable preamble (at least 0x14
  bytes) whose declared range \<open>offset .. offset + 2 * length\<close> goes beyond the end of the
  blob is decoded without any failure: the result is the stripped decoding of the bytes
  that are present from the offset to the end of the blob.  The body of the decoder
  raises exactly when the blob is shorter than 0x14 bytes, that is, when the preamble
  itself cannot be read.
\<close>

theorem decode_username_out_of_range:
  "(0x14 \<le> length v \<and> length v < u32_at v 0x10 + 2 * u16_at v 0x0C \<longrightarrow>
      decode_username v = Inr (strip (utf16le_decode (drop (u32_at v 0x10) v))))
   \<and> ((\<exists>e. decode_username_try v = Inl e) \<longleftrightarrow> length v < 0x14)"
proof -
  have "decode_username v = Inr (strip (utf16le_decode (drop (u32_at v 0x10) v)))"
    if a: "0x14 \<le> length v" and b: "length v < u32_at v 0x10 + 2 * u16_at v 0x0C"
  proof -
    have "py_slice v (u32_at v 16) (u32_at v 16 + u16_at v 12 * 2) = drop (u32_at v 16) v"
      using b by (intro py_slice_beyond) simp
    then show ?thesis
      using decode_username_try_ok [of v] a by (simp add: decode_username_of_try)
  qed
  then show ?thesis using decode_username_try_fails_iff [of v] by blast
qed

theorem decode_username_out_of_range_witness:
  "0x14 \<le> length preamble_v_blob
   \<and> length preamble_v_blob < u32_at preamble_v_blob 0x10 + 2 * u16_at preamble_v_blob 0x0C
   \<and> decode_username preamble_v_blob = Inr []
   \<and> length (take 0x13 preamble_v_blob) < 0x14
   \<and> (\<exists>e. decode_username_try (take 0x13 preamble_v_blob) = Inl e)"
proof -
  have a: "0x14 \<le> length preamble_v_blob" by (simp add: preamble_v_blob_def)
  have b: "length preamble_v_blob < u32_at preamble_v_blob 0x10 + 2 * u16_at preamble_v_blob 0x0C"
    by (simp add: preamble_v_blob_def blob_eval)
  have c: "length (take 0x13 preamble_v_blob) < 0x14" by simp
  have "decode_username preamble_v_blob = Inr (strip (utf16le_decode (drop (u32_at preamble_v_blob 0x10) preamble_v_blob)))"
    using decode_username_out_of_range [of preamble_v_blob] a b by blast
  then have d: "decode_username preamble_v_blob = Inr []"
    by (simp add: preamble_v_blob_def blob_eval)
  have e: "\<exists>e. decode_username_try (take 0x13 preamble_v_blob) = Inl e"
    using decode_username_out_of_range [of "take 0x13 preamble_v_blob"] c by blast
  show ?thesis using a b c d e by blast
qed


text \<open>
  The claim as stated fails: on the 36-byte blob the declared range 0x20 to 0x28 goes
  beyond the blob, and the decoder returns the name \<open>Ja\<close> instead of an error.
\<close>

theorem out_of_range_is_no_error_counterexample:
  "length cut_v_blob < u32_at cut_v_blob 0x10 + 2 * u16_at cut_v_blob 0x0C
   \<and> decode_username_try cut_v_blob = Inr (ascii ''Ja'')
   \<and> decode_username cut_v_blob = Inr (ascii ''Ja'')"
  by (simp add: cut_v_blob_def decode_username_def decode_username_try_def struct_unpack_def blob_eval)

lemma rev_split: "rev (dropWhile P (rev xs)) @ rev (takeWhile P (rev xs)) = xs"
proof -
  have "rev (dropWhile P (rev xs)) @ rev (takeWhile P (rev xs))
          = rev (takeWhile P (rev xs) @ dropWhile P (rev xs))"
    by (simp only: rev_append)
  also have "\<dots> = rev (rev xs)"
    by (simp only: takeWhile_dropWhile_id)
  finally show ?thesis by simp
qed

lemma strip_decomp:
  "\<exists>pre post. s = pre @ strip s @ post \<and> (\<forall>c\<in>set pre. isspace c) \<and> (\<forall>c\<in>set post. isspace c)"
proof -
  define b where "b = dropWhile isspace s"
  have 1: "s = takeWhile isspace s @ b"
    by (simp add: b_def)
  have 2: "b = strip s @ rev (takeWhile isspace (rev b))"
    using rev_split [of isspace b] by (simp add: strip_def b_def)
  have 3: "\<forall>c\<in>set (takeWhile isspace s). isspace c"
    by (auto dest: set_takeWhileD)
  have 4: "\<forall>c\<in>set (rev (takeWhile isspace (rev b))). isspace c"
    by (auto dest: set_takeWhileD)
  have "s = takeWhile isspace s @ strip s @ rev (takeWhile isspace (rev b))"
    using 1 2 by simp
  then show ?thesis using 3 4 by blast
qed

lemma strip_ends:
  assumes "strip s \<noteq> []"
  shows "\<not> isspace (hd (strip s)) \<and> \<not> isspace (last (strip s))"
proof -
  define b where "b = dropWhile isspace s"
  have r: "strip s = rev (dropWhile isspace (rev b))"
    by (simp add: strip_def b_def)
  then have ne: "dropWhile isspace (rev b) \<noteq> []" using assms by simp
  then have "\<not> isspace (hd (dropWhile isspace (rev b)))"
    by (rule hd_dropWhile)
  moreover have "last (strip s) = hd (dropWhile isspace (rev b))"
    using ne by (simp add: r last_rev)
  ultimately have l: "\<not> isspace (last (strip s))" by simp
  have b: "b = strip s @ rev (takeWhile isspace (rev b))"
    using rev_split [of isspace b] by (simp add: r)
  then have "b \<noteq> []" using assms by auto
  then have "\<not> isspace (hd b)" unfolding b_def by (rule hd_dropWhile)
  moreover have "hd b = hd (strip s)"
    using b assms by (metis hd_append2)
  ultimately show ?thesis using l by simp
qed

lemma strip_set: "set (strip s) \<subseteq> set s"
proof -
  obtain pre post where "s = pre @ strip s @ post" using strip_decomp by blast
  then have "set s = set pre \<union> set (strip s) \<union> set post"
    by (metis set_append sup_assoc)
  then show ?thesis by blast
qed

lemma printable_space: "printable_ascii c \<Longrightarrow> isspace c \<longleftrightarrow> c = 0x20"
  by (auto simp add: printable_ascii_def isspace_def)

text \<open>
  Claim C2.  If the blob has a readable preamble, the 16-bit field at 0x0C is the number
  of characters of \<open>s\<close>, the 32-bit field at 0x10 is an offset \<open>off\<close>, the
  \<open>2 * length s\<close> bytes at \<open>off\<close> lie inside the blob and are the UTF-16LE encoding of
  \<open>s\<close>, and \<open>s\<close> is printable ASCII, then \<open>decode_username\<close> returns \<open>s\<close> without
  its leading and trailing whitespace: the result \<open>r\<close> is what remains of \<open>s\<close> when a
  run of spaces is taken from its front and another from its end (the space is the only
  whitespace among printable ASCII), and \<open>r\<close> neither begins nor ends with a space.  The
  witness is the blob that holds \<open>Jane\<close> between two spaces at 0x20; the blob that holds
  \<open>Jane\<close> alone decodes to \<open>Jane\<close> as well.
\<close>

theorem decode_username_ascii:
  assumes "0x14 \<le> length v"
    and "u16_at v 0x0C = length s"
    and "u32_at v 0x10 = off"
    and "off + 2 * length s \<le> length v"
    and "take (2 * length s) (drop off v) = utf16le_encode s"
    and "\<forall>c\<in>set s. printable_ascii c"
  shows "\<exists>r pre post.
           decode_username v = Inr r \<and> s = pre @ r @ post
           \<and> (\<forall>c\<in>set pre. c = 0x20) \<and> (\<forall>c\<in>set post. c = 0x20)
           \<and> (r = [] \<or> (hd r \<noteq> 0x20 \<and> last r \<noteq> 0x20))"
proof -
  have "\<forall>c\<in>set s. c < 0xD800"
    using assms(6) by (auto simp: printable_ascii_def)
  then have "utf16le_decode (take (2 * length s) (drop off v)) = s"
    using assms(5) by (simp add: utf16le_decode_encode)
  then have d: "decode_username v = Inr (strip s)"
    using decode_username_try_ok [of v] assms(1-3)
    by (simp add: decode_username_of_try py_slice_def mult.commute)
  obtain pre post where pp: "s = pre @ strip s @ post" "\<forall>c\<in>set pre. isspace c"
      "\<forall>c\<in>set post. isspace c"
    using strip_decomp by blast
  have "set pre \<subseteq> set s" "set post \<subseteq> set s"
    using pp(1) by (metis set_append Un_upper1, metis set_append Un_upper2 sup.coboundedI2)
  then have sp: "\<forall>c\<in>set pre. c = 0x20" "\<forall>c\<in>set post. c = 0x20"
    using pp(2,3) assms(6) printable_space by blast+
  have e: "hd (strip s) \<noteq> 0x20 \<and> last (strip s) \<noteq> 0x20" if ne: "strip s \<noteq> []"
  proof -
    have "hd (strip s) \<in> set s" "last (strip s) \<in> set s"
      using ne strip_set [of s] by auto
    then have "printable_ascii (hd (strip s))" "printable_ascii (last (strip s))"
      using assms(6) by auto
    then show ?thesis using strip_ends [OF ne] printable_space by blast
  qed
  show ?thesis using d pp(1) sp e by blast
qed

theorem decode_username_ascii_witness:
  "0x14 \<le> length padded_v_blob
   \<and> u16_at padded_v_blob 0x0C = length (ascii '' Jane '')
   \<and> u32_at padded_v_blob 0x10 = 0x20
   \<and> 0x20 + 2 * length (ascii '' Jane '') \<le> length padded_v_blob
   \<and> take (2 * length (ascii '' Jane '')) (drop 0x20 padded_v_blob)
       = utf16le_encode (ascii '' Jane '')
   \<and> list_all printable_ascii (ascii '' Jane '')
   \<and> (\<exists>r pre post.
         decode_username padded_v_blob = Inr r \<and> ascii '' Jane '' = pre @ r @ post
         \<and> list_all (\<lambda>c. c = 0x20) pre \<and> list_all (\<lambda>c. c = 0x20) post
         \<and> (r = [] \<or> (hd r \<noteq> 0x20 \<and> last r \<noteq> 0x20)))
   \<and> decode_username padded_v_blob = Inr (ascii ''Jane'')
   \<and> decode_username jane_v_blob = Inr (ascii ''Jane'')"
proof -
  have 1: "0x14 \<le> length padded_v_blob" by (simp add: padded_v_blob_def)
  have 2: "u16_at padded_v_blob 0x0C = length (ascii '' Jane '')"
    by (simp add: padded_v_blob_def blob_eval)
  have 3: "u32_at padded_v_blob 0x10 = 0x20" by (simp add: padded_v_blob_def blob_eval)
  have 4: "0x20 + 2 * length (ascii '' Jane '') \<le> length padded_v_blob"
    by (simp add: padded_v_blob_def blob_eval)
  have 5: "take (2 * length (ascii '' Jane '')) (drop 0x20 padded_v_blob)
       = utf16le_encode (ascii '' Jane '')"
    by (simp add: padded_v_blob_def blob_eval)
  have 6: "\<forall>c\<in>set (ascii '' Jane ''). printable_ascii c"
    by (simp add: ascii_def printable_ascii_def)
  have 7: "\<exists>r pre post.
         decode_username padded_v_blob = Inr r \<and> ascii '' Jane '' = pre @ r @ post
         \<and> list_all (\<lambda>c. c = 0x20) pre \<and> list_all (\<lambda>c. c = 0x20) post
         \<and> (r = [] \<or> (hd r \<noteq> 0x20 \<and> last r \<noteq> 0x20))"
    using decode_username_ascii [OF 1 2 3 4 5 6] by (simp add: list_all_iff)
  have 8: "decode_username padded_v_blob = Inr (ascii ''Jane'')"
    by (simp add: padded_v_blob_def decode_username_def decode_username_try_def
          struct_unpack_def blob_eval)
  have 9: "decode_username jane_v_blob = Inr (ascii ''Jane'')"
    by (simp add: jane_v_blob_def decode_username_def decode_username_try_def
          struct_unpack_def blob_eval)
  have 10: "list_all printable_ascii (ascii '' Jane '')"
    using 6 by (simp add: list_all_iff)
  show ?thesis
    by (intro conjI 1 2 3 4 5 10 7 8 9)
qed


section \<open>Correctness of the calendar functions\<close>

lemma div_split: "r < k \<Longrightarrow> (k * q + r) div k = (q::nat)"
  by simp

lemma mod_split: "r < k \<Longrightarrow> (k * q + r) mod k = (r::nat)"
  by simp

lemma dby_decomp:
  assumes "b \<le> 3" "c \<le> 24" "e \<le> 3"
  shows "days_before_year (400 * a + 100 * b + 4 * c + e + 1)
           = 146097 * a + 36524 * b + 1461 * c + 365 * e"
proof -
  have "(4 * (100 * a + 25 * b + c) + e) div 4 = 100 * a + 25 * b + c"
    using assms by (intro div_split) simp
  then have 1: "(400 * a + 100 * b + 4 * c + e) div 4 = 100 * a + 25 * b + c"
    by (simp add: algebra_simps)
  have "(100 * (4 * a + b) + (4 * c + e)) div 100 = 4 * a + b"
    using assms by (intro div_split) simp
  then have 2: "(400 * a + 100 * b + 4 * c + e) div 100 = 4 * a + b"
    by (simp add: algebra_simps)
  have "(400 * a + (100 * b + 4 * c + e)) div 400 = a"
    using assms by (intro div_split) simp
  then have 3: "(400 * a + 100 * b + 4 * c + e) div 400 = a"
    by (simp add: algebra_simps)
  show ?thesis
    by (simp add: days_before_year_def 1 2 3)
qed

lemma is_leap_decomp:
  assumes "b \<le> 3" "c \<le> 24" "e \<le> 3"
  shows "is_leap (400 * a + 100 * b + 4 * c + e + 1) = (e = 3 \<and> (c \<noteq> 24 \<or> b = 3))"
proof (cases "e = 3")
  case False
  then have "e + 1 < 4" using assms by simp
  then have "(4 * (100 * a + 25 * b + c) + (e + 1)) mod 4 = e + 1"
    by (intro mod_split)
  then have "(400 * a + 100 * b + 4 * c + e + 1) mod 4 = e + 1"
    by (simp add: algebra_simps)
  then show ?thesis using False by (simp add: is_leap_def)
next
  case e3: True
  have "(4 * (100 * a + 25 * b + c + 1) + 0) mod 4 = 0"
    by (intro mod_split) simp
  then have m4: "(400 * a + 100 * b + 4 * c + e + 1) mod 4 = 0"
    using e3 by (simp add: algebra_simps)
  show ?thesis
  proof (cases "c = 24")
    case False
    then have "4 * c + 4 < 100" using assms by simp
    then have "(100 * (4 * a + b) + (4 * c + 4)) mod 100 = 4 * c + 4"
      by (intro mod_split)
    then have "(400 * a + 100 * b + 4 * c + e + 1) mod 100 = 4 * c + 4"
      using e3 by (simp add: algebra_simps)
    then show ?thesis using False e3 m4 by (simp add: is_leap_def)
  next
    case c24: True
    have "(100 * (4 * a + b + 1) + 0) mod 100 = 0"
      by (intro mod_split) simp
    then have m100: "(400 * a + 100 * b + 4 * c + e + 1) mod 100 = 0"
      using e3 c24 by (simp add: algebra_simps)
    show ?thesis
    proof (cases "b = 3")
      case True
      have "(400 * (a + 1) + 0) mod 400 = 0"
        by (intro mod_split) simp
      then have "(400 * a + 100 * b + 4 * c + e + 1) mod 400 = 0"
        using e3 c24 True by (simp add: algebra_simps)
      then show ?thesis using e3 c24 True m4 by (simp add: is_leap_def)
    next
      case False
      then have "100 * b + 100 < 400" using assms by simp
      then have "(400 * a + (100 * b + 100)) mod 400 = 100 * b + 100"
        by (intro mod_split)
      then have "(400 * a + 100 * b + 4 * c + e + 1) mod 400 = 100 * b + 100"
        using e3 c24 by (simp add: algebra_simps)
      then show ?thesis using e3 c24 False m4 m100 by (simp add: is_leap_def)
    qed
  qed
qed

lemma find_month_day_correct:
  assumes "r \<le> 364"
  shows "case find_month_day r L of (m, d) \<Rightarrow>
           1 \<le> m \<and> m \<le> 12 \<and> 1 \<le> d
           \<and> d \<le> (if m = 2 \<and> L then 29 else DAYS_IN_MONTH ! m)
           \<and> DAYS_BEFORE_MONTH ! m + (if 2 < m \<and> L then 1 else 0) + d = r + 1"
proof -
  define k where "k = (r + 50) div 32"
  have bounds: "32 * k \<le> r + 50" "r + 50 < 32 * k + 32"
    unfolding k_def by arith+
  then have "1 \<le> k" "k \<le> 12" using assms by arith+
  then have "k = 1 \<or> k = 2 \<or> k = 3 \<or> k = 4 \<or> k = 5 \<or> k = 6 \<or> k = 7 \<or> k = 8
      \<or> k = 9 \<or> k = 10 \<or> k = 11 \<or> k = 12"
    by arith
  then consider "k = 1" | "k = 2" | "k = 3" | "k = 4" | "k = 5" | "k = 6" | "k = 7" | "k = 8"
    | "k = 9" | "k = 10" | "k = 11" | "k = 12"
    by blast
  then show ?thesis
  proof cases
    case 1 then show ?thesis using bounds
      by (auto simp add: find_month_day_def k_def [symmetric] DAYS_BEFORE_MONTH_def DAYS_IN_MONTH_def)
  next
    case 2 then show ?thesis using bounds
      by (auto simp add: find_month_day_def k_def [symmetric] DAYS_BEFORE_MONTH_def DAYS_IN_MONTH_def)
  next
    case 3 then show ?thesis using bounds
      by (cases L) (auto simp add: find_month_day_def k_def [symmetric] DAYS_BEFORE_MONTH_def DAYS_IN_MONTH_def)
  next
    case 4 then show ?thesis using bounds
      by (cases L) (auto simp add: find_month_day_def k_def [symmetric] DAYS_BEFORE_MONTH_def DAYS_IN_MONTH_def)
  next
    case 5 then show ?thesis using bounds
      by (cases L) (auto simp add: find_month_day_def k_def [symmetric] DAYS_BEFORE_MONTH_def DAYS_IN_MONTH_def)
  next
    case 6 then show ?thesis using bounds
      by (cases L) (auto simp add: find_month_day_def k_def [symmetric] DAYS_BEFORE_MONTH_def DAYS_IN_MONTH_def)
  next
    case 7 then show ?thesis using bounds
      by (cases L) (auto simp add: find_month_day_def k_def [symmetric] DAYS_BEFORE_MONTH_def DAYS_IN_MONTH_def)
  next
    case 8 then show ?thesis using bounds
      by (cases L) (auto simp add: find_month_day_def k_def [symmetric] DAYS_BEFORE_MONTH_def DAYS_IN_MONTH_def)
  next
    case 9 then show ?thesis using bounds
      by (cases L) (auto simp add: find_month_day_def k_def [symmetric] DAYS_BEFORE_MONTH_def DAYS_IN_MONTH_def)
  next
    case 10 then show ?thesis using bounds
      by (cases L) (auto simp add: find_month_day_def k_def [symmetric] DAYS_BEFORE_MONTH_def DAYS_IN_MONTH_def)
  next
    case 11 then show ?thesis using bounds
      by (cases L) (auto simp add: find_month_day_def k_def [symmetric] DAYS_BEFORE_MONTH_def DAYS_IN_MONTH_def)
  next
    case 12 then show ?thesis using bounds assms
      by (cases L) (auto simp add: find_month_day_def k_def [symmetric] DAYS_BEFORE_MONTH_def DAYS_IN_MONTH_def)
  qed
qed

lemma ord2ymd_correct:
  assumes "1 \<le> n"
  shows "case ord2ymd n of (y, m, d) \<Rightarrow>
           1 \<le> y \<and> 1 \<le> m \<and> m \<le> 12 \<and> 1 \<le> d \<and> d \<le> days_in_month y m
           \<and> ymd2ord y m d = n"
proof -
  define n0 where "n0 = n - 1"
  define a where "a = n0 div 146097"
  define r1 where "r1 = n0 mod 146097"
  define b where "b = r1 div 36524"
  define r2 where "r2 = r1 mod 36524"
  define c where "c = r2 div 1461"
  define r3 where "r3 = r2 mod 1461"
  define e where "e = r3 div 365"
  define r4 where "r4 = r3 mod 365"
  have n: "n = 146097 * a + r1 + 1"
    using assms by (simp add: a_def r1_def n0_def)
  have r1: "r1 = 36524 * b + r2" "r1 < 146097" by (simp_all add: b_def r2_def r1_def)
  have r2: "r2 = 1461 * c + r3" "r2 < 36524" by (simp_all add: c_def r3_def r2_def)
  have r3: "r3 = 365 * e + r4" "r3 < 1461" by (simp_all add: e_def r4_def r3_def)
  have r4: "r4 < 365" by (simp add: r4_def)
  have b4: "b \<le> 4" using r1 by arith
  have c24: "c \<le> 24" using r2 by arith
  have e4: "e \<le> 4" using r3 by arith
  have unfold: "ord2ymd n =
      (if e = 4 \<or> b = 4 then (a * 400 + 1 + b * 100 + c * 4 + e - 1, 12, 31)
       else case find_month_day r4 (e = 3 \<and> (c \<noteq> 24 \<or> b = 3)) of
              (m, d) \<Rightarrow> (a * 400 + 1 + b * 100 + c * 4 + e, m, d))"
    by (simp add: ord2ymd_def Let_def a_def r1_def b_def r2_def c_def r3_def e_def r4_def n0_def)
  show ?thesis
  proof (cases "b = 4")
    case True
    then have z: "r2 = 0" "c = 0" "r3 = 0" "e = 0" "r4 = 0"
      using r1 r2 r3 by arith+
    have y: "a * 400 + 1 + b * 100 + c * 4 + e - 1 = 400 * a + 100 * 3 + 4 * 24 + 3 + 1"
      using True z by simp
    have "days_before_year (400 * a + 100 * 3 + 4 * 24 + 3 + 1) = 146097 * a + 36524 * 3 + 1461 * 24 + 365 * 3"
      by (rule dby_decomp) simp_all
    moreover have "is_leap (400 * a + 100 * 3 + 4 * 24 + 3 + 1)"
      using is_leap_decomp [of 3 24 3 a] by simp
    ultimately show ?thesis
      using True z n r1 unfolding unfold y
      by (simp add: ymd2ord_def days_before_month_def days_in_month_def
            DAYS_BEFORE_MONTH_def DAYS_IN_MONTH_def)
  next
    case nb: False
    then have b3: "b \<le> 3" using b4 by simp
    show ?thesis
    proof (cases "e = 4")
      case True
      then have z: "r4 = 0" "c \<le> 23" using r3 r2 by arith+
      have y: "a * 400 + 1 + b * 100 + c * 4 + e - 1 = 400 * a + 100 * b + 4 * c + 3 + 1"
        using True by simp
      have "days_before_year (400 * a + 100 * b + 4 * c + 3 + 1) = 146097 * a + 36524 * b + 1461 * c + 365 * 3"
        using b3 z by (intro dby_decomp) simp_all
      moreover have "is_leap (400 * a + 100 * b + 4 * c + 3 + 1)"
        using is_leap_decomp [of b c 3 a] b3 z by simp
      ultimately show ?thesis
        using True z n r1 r2 r3 unfolding unfold y
        by (simp add: ymd2ord_def days_before_month_def days_in_month_def
              DAYS_BEFORE_MONTH_def DAYS_IN_MONTH_def)
    next
      case ne: False
      then have e3: "e \<le> 3" using e4 by simp
      define L where "L = (e = 3 \<and> (c \<noteq> 24 \<or> b = 3))"
      obtain m d where md: "find_month_day r4 L = (m, d)" by (cases "find_month_day r4 L")
      have fm: "1 \<le> m \<and> m \<le> 12 \<and> 1 \<le> d
           \<and> d \<le> (if m = 2 \<and> L then 29 else DAYS_IN_MONTH ! m)
           \<and> DAYS_BEFORE_MONTH ! m + (if 2 < m \<and> L then 1 else 0) + d = r4 + 1"
        using find_month_day_correct [of r4 L] r4 md by simp
      have y: "a * 400 + 1 + b * 100 + c * 4 + e = 400 * a + 100 * b + 4 * c + e + 1"
        by simp
      have dby: "days_before_year (400 * a + 100 * b + 4 * c + e + 1) = 146097 * a + 36524 * b + 1461 * c + 365 * e"
        using b3 c24 e3 by (intro dby_decomp)
      have leap: "is_leap (400 * a + 100 * b + 4 * c + e + 1) = L"
        using is_leap_decomp [of b c e a] b3 c24 e3 by (simp add: L_def)
      have res: "ord2ymd n = (400 * a + 100 * b + 4 * c + e + 1, m, d)"
        using nb ne md unfolding unfold y L_def by simp
      show ?thesis
        unfolding res using fm dby leap n r1 r2 r3
        by (simp add: ymd2ord_def days_before_month_def days_in_month_def)
    qed
  qed
qed

lemma year_decomp:
  "\<exists>a b c e. b \<le> 3 \<and> c \<le> 24 \<and> e \<le> 3 \<and> (k::nat) = 400 * a + 100 * b + 4 * c + e"
proof -
  have 1: "k = 400 * (k div 400) + k mod 400" by simp
  have 2: "k mod 400 = 100 * (k mod 400 div 100) + k mod 400 mod 100" by simp
  have 3: "k mod 400 mod 100 = k mod 100" by (simp add: mod_mod_cancel)
  have 4: "k mod 100 = 4 * (k mod 100 div 4) + k mod 100 mod 4" by simp
  have 5: "k mod 100 mod 4 = k mod 4" by (simp add: mod_mod_cancel)
  have b: "k mod 400 div 100 \<le> 3" by arith
  have c: "k mod 100 div 4 \<le> 24" by arith
  have e: "k mod 4 \<le> 3" by arith
  have "k = 400 * (k div 400) + 100 * (k mod 400 div 100) + 4 * (k mod 100 div 4) + k mod 4"
    using 1 2 3 4 5 by linarith
  then show ?thesis using b c e by blast
qed

lemma dby_Suc:
  assumes "1 \<le> y"
  shows "days_before_year (Suc y) = days_before_year y + year_days y"
proof -
  obtain a b c e where k: "b \<le> 3" "c \<le> 24" "e \<le> 3" "y - 1 = 400 * a + 100 * b + 4 * c + e"
    using year_decomp [of "y - 1"] by blast
  then have y: "y = 400 * a + 100 * b + 4 * c + e + 1" using assms by simp
  have dy: "days_before_year y = 146097 * a + 36524 * b + 1461 * c + 365 * e"
    unfolding y using k by (intro dby_decomp)
  have ly: "is_leap y = (e = 3 \<and> (c \<noteq> 24 \<or> b = 3))"
    unfolding y using k by (intro is_leap_decomp)
  consider "e \<le> 2" | "e = 3" "c \<le> 23" | "e = 3" "c = 24" "b \<le> 2" | "e = 3" "c = 24" "b = 3"
    using k by linarith
  then show ?thesis
  proof cases
    case 1
    have "Suc y = 400 * a + 100 * b + 4 * c + (e + 1) + 1" using y by simp
    moreover have "days_before_year (400 * a + 100 * b + 4 * c + (e + 1) + 1)
                     = 146097 * a + 36524 * b + 1461 * c + 365 * (e + 1)"
      using k 1 by (intro dby_decomp) simp_all
    ultimately show ?thesis using dy ly 1 by (simp add: year_days_def)
  next
    case 2
    have "Suc y = 400 * a + 100 * b + 4 * (c + 1) + 0 + 1" using y 2 by simp
    moreover have "days_before_year (400 * a + 100 * b + 4 * (c + 1) + 0 + 1)
                     = 146097 * a + 36524 * b + 1461 * (c + 1) + 365 * 0"
      using k 2 by (intro dby_decomp) simp_all
    ultimately show ?thesis using dy ly 2 by (simp add: year_days_def)
  next
    case 3
    have "Suc y = 400 * a + 100 * (b + 1) + 4 * 0 + 0 + 1" using y 3 by simp
    moreover have "days_before_year (400 * a + 100 * (b + 1) + 4 * 0 + 0 + 1)
                     = 146097 * a + 36524 * (b + 1) + 1461 * 0 + 365 * 0"
      using k 3 by (intro dby_decomp) simp_all
    ultimately show ?thesis using dy ly 3 by (simp add: year_days_def)
  next
    case 4
    have "Suc y = 400 * (a + 1) + 100 * 0 + 4 * 0 + 0 + 1" using y 4 by simp
    moreover have "days_before_year (400 * (a + 1) + 100 * 0 + 4 * 0 + 0 + 1)
                     = 146097 * (a + 1) + 36524 * 0 + 1461 * 0 + 365 * 0"
      by (intro dby_decomp) simp_all
    ultimately show ?thesis using dy ly 4 by (simp add: year_days_def)
  qed
qed

lemma dby_1601: "days_before_year 1601 = 584388"
  by (simp add: days_before_year_def)

lemma dby_10000: "days_before_year 10000 = 3652059"
  by (simp add: days_before_year_def)

lemma dby_mono_Suc: "days_before_year y \<le> days_before_year (Suc y)"
proof (cases "1 \<le> y")
  case True
  then show ?thesis by (simp add: dby_Suc)
next
  case False
  then show ?thesis by (simp add: days_before_year_def)
qed

lemma dby_mono: "y \<le> z \<Longrightarrow> days_before_year y \<le> days_before_year z"
  by (induction z rule: dec_induct) (auto intro: order_trans dby_mono_Suc)

lemma dby_sum:
  "1601 \<le> y \<Longrightarrow> days_before_year y = 584388 + sum_list (map year_days [1601..<y])"
proof (induction y rule: dec_induct)
  case base
  show ?case by (simp add: dby_1601)
next
  case (step y)
  then show ?case by (simp add: dby_Suc)
qed

lemma month_cases:
  assumes "1 \<le> m" "m \<le> 12"
  obtains "m = 1" | "m = 2" | "m = 3" | "m = 4" | "m = 5" | "m = 6" | "m = 7" | "m = 8"
    | "m = 9" | "m = 10" | "m = 11" | "m = (12::nat)"
proof -
  have "m = 1 \<or> m = 2 \<or> m = 3 \<or> m = 4 \<or> m = 5 \<or> m = 6 \<or> m = 7 \<or> m = 8
      \<or> m = 9 \<or> m = 10 \<or> m = 11 \<or> m = 12"
    using assms by arith
  then show ?thesis using that by blast
qed

lemma dbm_sum:
  assumes "1 \<le> m" "m \<le> 12"
  shows "days_before_month y m = sum_list (map (days_in_month y) [1..<m])"
  using assms
  by (cases m rule: month_cases)
     (simp_all add: days_before_month_def days_in_month_def DAYS_BEFORE_MONTH_def
        DAYS_IN_MONTH_def eval_nat_numeral)

lemma dbm_within_year:
  assumes "1 \<le> m" "m \<le> 12" "d \<le> days_in_month y m"
  shows "days_before_month y m + d \<le> year_days y"
  using assms
  by (cases m rule: month_cases)
     (auto simp add: days_before_month_def days_in_month_def DAYS_BEFORE_MONTH_def
        DAYS_IN_MONTH_def year_days_def split: if_splits)

lemma ymd2ord_epoch: "ymd2ord 1601 (Suc 0) (Suc 0) = 584389"
  by (simp add: ymd2ord_def days_before_year_def days_before_month_def DAYS_BEFORE_MONTH_def)

lemma ord2ymd_since_1601:
  assumes "D \<le> 3067670" and "ord2ymd (584389 + D) = (y, m, d)"
  shows "1601 \<le> y \<and> y \<le> 9999 \<and> 1 \<le> m \<and> m \<le> 12 \<and> 1 \<le> d \<and> d \<le> days_in_month y m
         \<and> days_since_1601 y m d = D"
proof -
  have c: "1 \<le> y \<and> 1 \<le> m \<and> m \<le> 12 \<and> 1 \<le> d \<and> d \<le> days_in_month y m
           \<and> ymd2ord y m d = 584389 + D"
    using ord2ymd_correct [of "584389 + D"] assms(2) by simp
  then have ord: "days_before_year y + days_before_month y m + d = 584389 + D"
    by (simp add: ymd2ord_def)
  have within: "days_before_month y m + d \<le> year_days y"
    using c by (intro dbm_within_year) simp_all
  have lo: "1601 \<le> y"
  proof (rule ccontr)
    assume "\<not> 1601 \<le> y"
    then have "Suc y \<le> 1601" by simp
    then have "days_before_year (Suc y) \<le> 584388"
      using dby_mono [of "Suc y" 1601] by (simp add: dby_1601)
    moreover have "days_before_year (Suc y) = days_before_year y + year_days y"
      using c by (intro dby_Suc) simp
    ultimately show False using ord within by linarith
  qed
  have hi: "y \<le> 9999"
  proof (rule ccontr)
    assume "\<not> y \<le> 9999"
    then have "10000 \<le> y" by simp
    then have "3652059 \<le> days_before_year y"
      using dby_mono [of 10000 y] by (simp add: dby_10000)
    then show False using ord c assms(1) by linarith
  qed
  have "days_before_year y = 584388 + sum_list (map year_days [1601..<y])"
    using lo by (rule dby_sum)
  moreover have "days_before_month y m = sum_list (map (days_in_month y) [1..<m])"
    using c by (intro dbm_sum) simp_all
  ultimately have "days_since_1601 y m d = D"
    using ord c by (simp add: days_since_1601_def)
  then show ?thesis using c lo hi by simp
qed

lemma time_split:
  "us div 86400000000 * 86400 + us div 1000000 mod 86400 = us div (1000000::nat)"
proof -
  have "us div 86400000000 = us div 1000000 div 86400"
    by (simp add: div_mult2_eq)
  then show ?thesis by simp
qed

lemma datetime_add_epoch_raw:
  assumes "S < 86400" "U < 1000000" "D \<le> 3067670" "ord2ymd (584389 + D) = (y, m, d)"
  shows "datetime_add epoch_1601 \<lparr>days = D, seconds = S, microseconds = U\<rparr>
           = Inr \<lparr>year = y, month = m, day = d, hour = S div 3600,
                  minute = S mod 3600 div 60, second = S mod 60, microsecond = U\<rparr>"
proof -
  have u: "U div 1000000 = 0" "U mod 1000000 = U" using assms(2) by simp_all
  have s: "S div 86400 = 0" "S mod 86400 = S" using assms(1) by simp_all
  have d: "584389 + D \<le> 3652059" using assms(3) by simp
  show ?thesis
    unfolding datetime_add_def epoch_1601_def
    by (simp add: Let_def ymd2ord_epoch MAXORDINAL_def u s assms(3) assms(4))
qed

lemma hms_recompose:
  "((D * 24 + S div 3600) * 60 + S mod 3600 div 60) * 60 + S mod 60 = D * 86400 + (S::nat)"
proof -
  have 1: "S = S div 3600 * 3600 + S mod 3600" by simp
  have 2: "S mod 3600 = S mod 3600 div 60 * 60 + S mod 3600 mod 60" by simp
  have 3: "S mod 3600 mod 60 = S mod 60" by (simp add: mod_mod_cancel)
  have "S div 3600 * 3600 + S mod 3600 div 60 * 60 + S mod 60 = S"
    using 1 2 3 by linarith
  then show ?thesis by (simp add: algebra_simps)
qed

lemma hms_bounds:
  assumes "S < (86400::nat)"
  shows "S div 3600 < 24" "S mod 3600 div 60 < 60" "S mod 60 < 60"
proof -
  show "S div 3600 < 24" using assms by (simp add: div_less_iff_less_mult)
  have "S mod 3600 < 3600" by simp
  then show "S mod 3600 div 60 < 60" by (simp add: div_less_iff_less_mult)
  show "S mod 60 < 60" by simp
qed

lemma datetime_add_epoch:
  assumes "us div 86400000000 \<le> 3067670"
  shows "\<exists>dt. datetime_add epoch_1601
                 \<lparr>days = us div 86400000000, seconds = us div 1000000 mod 86400,
                  microseconds = us mod 1000000\<rparr> = Inr dt
              \<and> valid_datetime dt \<and> microseconds_since_1601 dt = us"
proof -
  define D where "D = us div 86400000000"
  define S where "S = us div 1000000 mod 86400"
  define U where "U = us mod 1000000"
  obtain y m d where ymd: "ord2ymd (584389 + D) = (y, m, d)"
    by (cases "ord2ymd (584389 + D)")
  have S: "S < 86400" by (simp add: S_def)
  have U: "U < 1000000" by (simp add: U_def)
  have D: "D \<le> 3067670" using assms by (simp add: D_def)
  have date: "1601 \<le> y \<and> y \<le> 9999 \<and> 1 \<le> m \<and> m \<le> 12 \<and> 1 \<le> d \<and> d \<le> days_in_month y m
         \<and> days_since_1601 y m d = D"
    using ord2ymd_since_1601 [OF D ymd] .
  define dt where "dt = \<lparr>year = y, month = m, day = d, hour = S div 3600,
      minute = S mod 3600 div 60, second = S mod 60, microsecond = U\<rparr>"
  have add: "datetime_add epoch_1601 \<lparr>days = D, seconds = S, microseconds = U\<rparr> = Inr dt"
    unfolding dt_def by (rule datetime_add_epoch_raw [OF S U D ymd])
  have valid: "valid_datetime dt"
    using date hms_bounds [OF S] U by (simp add: valid_datetime_def dt_def)
  have secs: "((D * 24 + S div 3600) * 60 + S mod 3600 div 60) * 60 + S mod 60 = us div 1000000"
    unfolding hms_recompose unfolding D_def S_def by (rule time_split)
  have "microseconds_since_1601 dt
          = (((D * 24 + S div 3600) * 60 + S mod 3600 div 60) * 60 + S mod 60) * 1000000 + U"
    using date by (simp add: microseconds_since_1601_def dt_def algebra_simps)
  also have "\<dots> = us div 1000000 * 1000000 + us mod 1000000"
    unfolding secs U_def ..
  also have "\<dots> = us" by simp
  finally have "microseconds_since_1601 dt = us" .
  then show ?thesis using add valid unfolding D_def S_def U_def by blast
qed

lemma filetime_in_range_iff:
  "ts div 10 div 86400000000 \<le> 3067670 \<longleftrightarrow> ts < FILETIME_END"
proof -
  have 1: "ts div 10 div 86400000000 = ts div 864000000000"
    by (simp add: div_mult2_eq)
  have 2: "ts div 864000000000 < 3067671 \<longleftrightarrow> ts < 3067671 * 864000000000"
    by (rule div_less_iff_less_mult) simp
  have 3: "ts div 864000000000 \<le> 3067670 \<longleftrightarrow> ts div 864000000000 < 3067671"
    by linarith
  have 4: "(3067671::nat) * 864000000000 = FILETIME_END"
    by (simp add: FILETIME_END_def)
  show ?thesis unfolding 1 3 2 4 ..
qed

lemma timedelta_of_filetime:
  assumes "ts < 18446744073709551616"
  shows "timedelta_microseconds (ts div 10) =
           Inr \<lparr>days = ts div 10 div 86400000000, seconds = ts div 10 div 1000000 mod 86400,
                microseconds = ts div 10 mod 1000000\<rparr>"
proof -
  have "ts div 10 div 86400000000 = ts div 864000000000"
    by (simp add: div_mult2_eq)
  moreover have "ts div 864000000000 < 21350399"
    using assms by (simp add: div_less_iff_less_mult)
  ultimately have "\<not> 999999999 < ts div 10 div 86400000000" by simp
  then show ?thesis by (simp add: timedelta_microseconds_def Let_def)
qed

lemma datetime_add_epoch_overflow:
  assumes "S < 86400" "U < 1000000" "3067670 < D"
  shows "datetime_add epoch_1601 \<lparr>days = D, seconds = S, microseconds = U\<rparr>
           = Inl (OverflowError (ascii ''date value out of range''))"
proof -
  have u: "U div 1000000 = 0" using assms(2) by simp
  have s: "S div 86400 = 0" using assms(1) by simp
  have d: "\<not> D \<le> 3067670" using assms(3) by simp
  show ?thesis
    unfolding datetime_add_def epoch_1601_def
    by (simp add: Let_def ymd2ord_epoch MAXORDINAL_def u s d)
qed

lemma unpack_short_text:
  "length v < j \<Longrightarrow> j - i = 8 \<Longrightarrow>
     struct_unpack Q (py_slice v i j) = Inl (StructError (ascii ''unpack requires a buffer of 8 bytes''))"
  "length v < j \<Longrightarrow> j - i = 4 \<Longrightarrow>
     struct_unpack I (py_slice v i j) = Inl (StructError (ascii ''unpack requires a buffer of 4 bytes''))"
  "length v < j \<Longrightarrow> j - i = 2 \<Longrightarrow>
     struct_unpack H (py_slice v i j) = Inl (StructError (ascii ''unpack requires a buffer of 2 bytes''))"
  by (simp_all add: unpack_short ascii_def)

lemma decode_last_login_short:
  assumes "length f < 16"
  shows "decode_last_login f = Inl (StructError (ascii ''unpack requires a buffer of 8 bytes''))"
  using unpack_short_text(1) [of f 16 8] assms by (simp add: decode_last_login_def)

lemma decode_last_login_unpacked:
  assumes "16 \<le> length f"
  shows "decode_last_login f =
     (if u64_at f 8 = 0 then Inr (ascii ''Never'')
      else case datetime_add epoch_1601
                  \<lparr>days = u64_at f 8 div 10 div 86400000000,
                   seconds = u64_at f 8 div 10 div 1000000 mod 86400,
                   microseconds = u64_at f 8 div 10 mod 1000000\<rparr> of
             Inl e \<Rightarrow> Inl e
           | Inr dt \<Rightarrow> Inr (strftime dt))"
proof -
  have q: "struct_unpack Q (py_slice f 8 16) = Inr (u64_at f 8)"
    using unpack_Q [of 16 8 f] assms by simp
  show ?thesis
    by (simp add: decode_last_login_def q timedelta_of_filetime [OF u64_bound])
qed

lemma decode_last_login_never:
  "16 \<le> length f \<Longrightarrow> u64_at f 8 = 0 \<Longrightarrow> decode_last_login f = Inr (ascii ''Never'')"
  by (simp add: decode_last_login_unpacked)

lemma decode_last_login_date:
  assumes "16 \<le> length f" "0 < u64_at f 8" "u64_at f 8 < FILETIME_END"
  shows "\<exists>dt. decode_last_login f = Inr (strftime dt) \<and> valid_datetime dt
              \<and> microseconds_since_1601 dt = u64_at f 8 div 10"
proof -
  have "u64_at f 8 div 10 div 86400000000 \<le> 3067670"
    using assms(3) by (simp add: filetime_in_range_iff)
  then obtain dt where dt: "datetime_add epoch_1601
                  \<lparr>days = u64_at f 8 div 10 div 86400000000,
                   seconds = u64_at f 8 div 10 div 1000000 mod 86400,
                   microseconds = u64_at f 8 div 10 mod 1000000\<rparr> = Inr dt"
      "valid_datetime dt" "microseconds_since_1601 dt = u64_at f 8 div 10"
    using datetime_add_epoch [of "u64_at f 8 div 10"] by blast
  have "decode_last_login f = Inr (strftime dt)"
    using assms(2) by (simp add: decode_last_login_unpacked [OF assms(1)] dt(1))
  then show ?thesis using dt by blast
qed

lemma decode_last_login_overflow:
  assumes "16 \<le> length f" "FILETIME_END \<le> u64_at f 8"
  shows "decode_last_login f = Inl (OverflowError (ascii ''date value out of range''))"
proof -
  have "\<not> u64_at f 8 div 10 div 86400000000 \<le> 3067670"
    using assms(2) by (simp add: filetime_in_range_iff)
  then have "datetime_add epoch_1601
                  \<lparr>days = u64_at f 8 div 10 div 86400000000,
                   seconds = u64_at f 8 div 10 div 1000000 mod 86400,
                   microseconds = u64_at f 8 div 10 mod 1000000\<rparr>
        = Inl (OverflowError (ascii ''date value out of range''))"
    by (intro datetime_add_epoch_overflow) simp_all
  moreover have "u64_at f 8 \<noteq> 0" using assms(2) by (simp add: FILETIME_END_def)
  ultimately show ?thesis by (simp add: decode_last_login_unpacked [OF assms(1)])
qed

lemma decode_password_policy_short:
  assumes "length f < 28"
  shows "decode_password_policy f = Inl (StructError (ascii ''unpack requires a buffer of 4 bytes''))"
  using unpack_short_text(2) [of f 28 24] assms by (simp add: decode_password_policy_def)

lemma decode_password_policy_ok:
  assumes "28 \<le> length f"
  shows "decode_password_policy f =
           Inr (if and (u32_at f 24) 0x20 \<noteq> 0 then ascii ''No Password Required''
                else ascii ''Password Required'')"
proof -
  have i: "struct_unpack I (py_slice f 24 28) = Inr (u32_at f 24)"
    using unpack_I [of 28 24 f] assms by simp
  show ?thesis by (simp add: decode_password_policy_def i)
qed

lemma flag_bit:
  "and (u32_at f 24) 0x20 \<noteq> 0 \<longleftrightarrow> bit (f ! 24) 5"
proof -
  have "and (u32_at f 24) (2 ^ 5) = 0 \<longleftrightarrow> \<not> bit (u32_at f 24) 5"
    by (rule and_exp_eq_0_iff_not_bit)
  moreover have "bit (u32_at f 24) 5 \<longleftrightarrow> bit (unat (f ! 24)) 5"
  proof -
    have "u32_at f 24 = unat (f ! 24) + 32 * (8 * (unat (f ! 25) + 256 * unat (f ! 26) + 65536 * unat (f ! 27)))"
      by (simp add: u32_at_def)
    then have "u32_at f 24 div 32 = unat (f ! 24) div 32 + 8 * (unat (f ! 25) + 256 * unat (f ! 26) + 65536 * unat (f ! 27))"
      by simp
    then have "odd (u32_at f 24 div 32) \<longleftrightarrow> odd (unat (f ! 24) div 32)"
      by simp
    then show ?thesis by (simp add: bit_iff_odd)
  qed
  moreover have "bit (unat (f ! 24)) 5 \<longleftrightarrow> bit (f ! 24) 5"
    by (simp add: bit_unsigned_iff)
  ultimately show ?thesis by simp
qed

lemma zpad_2: "zpad 2 n = [48 + n div 10 mod 10, 48 + n mod 10]"
proof -
  have "zpad (Suc (Suc 0)) n = [48 + n div 10 mod 10, 48 + n mod 10]"
    by simp
  moreover have "(2::nat) = Suc (Suc 0)" by simp
  ultimately show ?thesis by (simp only:)
qed

lemma zpad_4:
  "zpad 4 n = [48 + n div 1000 mod 10, 48 + n div 100 mod 10, 48 + n div 10 mod 10, 48 + n mod 10]"
proof -
  have "zpad (Suc (Suc (Suc (Suc 0)))) n
          = [48 + n div 10 div 10 div 10 mod 10, 48 + n div 10 div 10 mod 10, 48 + n div 10 mod 10,
             48 + n mod 10]"
    by simp
  moreover have "(4::nat) = Suc (Suc (Suc (Suc 0)))" by simp
  moreover have "n div 10 div 10 = n div 100" "n div 10 div 10 div 10 = n div 1000"
    by (simp_all add: div_mult2_eq)
  ultimately show ?thesis by (simp only:)
qed

section \<open>The fixed-layout decoder\<close>

lemma decode_f_value_of_parts:
  "decode_last_login f = Inr l \<Longrightarrow> decode_password_policy f = Inr p \<Longrightarrow>
     decode_f_value f = Inr (l, p)"
  by (simp add: decode_f_value_def decode_f_value_try_def)

lemma decode_f_value_login_fails:
  "decode_last_login f = Inl e \<Longrightarrow>
     decode_f_value f = Inr (ascii ''Unknown'', ascii ''Error: '' @ exn_str e)"
  by (simp add: decode_f_value_def decode_f_value_try_def)

lemma decode_f_value_policy_fails:
  "decode_last_login f = Inr l \<Longrightarrow> decode_password_policy f = Inl e \<Longrightarrow>
     decode_f_value f = Inr (ascii ''Unknown'', ascii ''Error: '' @ exn_str e)"
  by (simp add: decode_f_value_def decode_f_value_try_def)

lemma error_texts:
  "ascii ''Error: '' @ ascii ''date value out of range'' = ascii ''Error: date value out of range''"
  "ascii ''Error: '' @ ascii ''unpack requires a buffer of 8 bytes''
     = ascii ''Error: unpack requires a buffer of 8 bytes''"
  "ascii ''Error: '' @ ascii ''unpack requires a buffer of 4 bytes''
     = ascii ''Error: unpack requires a buffer of 4 bytes''"
  by (simp_all add: ascii_def)

lemma decode_last_login_total:
  assumes "16 \<le> length f" "u64_at f 8 < FILETIME_END"
  shows "\<exists>l. decode_last_login f = Inr l"
proof (cases "u64_at f 8 = 0")
  case True
  then show ?thesis using decode_last_login_never [OF assms(1)] by blast
next
  case False
  then show ?thesis using decode_last_login_date [OF assms(1) _ assms(2)] by blast
qed


text \<open>
  Claim C4, as the code has it.  For every \<open>F\<close> blob of at least 28 bytes whose FILETIME
  at offset 0x08 can be converted (it is below \<open>FILETIME_END\<close>), the password policy is
  decided by the 32-bit little-endian word at offset 0x18 alone: bit 0x20 of the word,
  which is bit 5 of the byte at offset 0x18, set gives \<open>No Password Required\<close>, clear
  gives \<open>Password Required\<close>.
\<close>

theorem password_policy_of_flags:
  assumes "28 \<le> length f" "u64_at f 8 < FILETIME_END"
  shows "(\<exists>l. decode_f_value f =
              Inr (l, if and (u32_at f 0x18) 0x20 \<noteq> 0 then ascii ''No Password Required''
                      else ascii ''Password Required''))
       \<and> (and (u32_at f 0x18) 0x20 \<noteq> 0) = bit (f ! 0x18) 5"
proof -
  obtain l where l: "decode_last_login f = Inr l"
    using decode_last_login_total [of f] assms by auto
  show ?thesis
    using decode_f_value_of_parts [OF l decode_password_policy_ok [OF assms(1)]] flag_bit [of f]
    by auto
qed

text \<open>
  Claim C5, as the code has it.  The two fields of the \<open>F\<close> blob are decoded in one
  guarded block, the timestamp first.  A blob shorter than 16 bytes, or a FILETIME that
  cannot be converted, gives the error pair with the message of the timestamp and the
  flags are not read.  A blob of 16 to 27 bytes whose timestamp decodes gives the error
  pair with the message of the flags read, and the decoded timestamp is dropped.  Both
  values are returned exactly when both parts succeed.
\<close>

theorem f_value_all_or_nothing:
  "(length f < 16 \<longrightarrow>
      decode_f_value f =
        Inr (ascii ''Unknown'', ascii ''Error: unpack requires a buffer of 8 bytes''))
   \<and> (16 \<le> length f \<and> FILETIME_END \<le> u64_at f 8 \<longrightarrow>
      decode_f_value f = Inr (ascii ''Unknown'', ascii ''Error: date value out of range''))
   \<and> (16 \<le> length f \<and> length f < 28 \<and> u64_at f 8 < FILETIME_END \<longrightarrow>
      decode_f_value f =
        Inr (ascii ''Unknown'', ascii ''Error: unpack requires a buffer of 4 bytes''))
   \<and> (28 \<le> length f \<and> u64_at f 8 < FILETIME_END \<longrightarrow>
      (\<exists>l p. decode_last_login f = Inr l \<and> decode_password_policy f = Inr p
             \<and> decode_f_value f = Inr (l, p)))"
proof -
  have a: "decode_f_value f =
        Inr (ascii ''Unknown'', ascii ''Error: unpack requires a buffer of 8 bytes'')"
    if "length f < 16"
    using decode_f_value_login_fails [OF decode_last_login_short [OF that]]
    by (simp add: error_texts)
  have b: "decode_f_value f = Inr (ascii ''Unknown'', ascii ''Error: date value out of range'')"
    if h1: "16 \<le> length f" and h2: "FILETIME_END \<le> u64_at f 8"
    using decode_f_value_login_fails [OF decode_last_login_overflow [OF h1 h2]]
    by (simp add: error_texts)
  have c: "decode_f_value f =
        Inr (ascii ''Unknown'', ascii ''Error: unpack requires a buffer of 4 bytes'')"
    if h1: "16 \<le> length f" and h2: "length f < 28" and h3: "u64_at f 8 < FILETIME_END"
  proof -
    obtain l where l: "decode_last_login f = Inr l"
      using decode_last_login_total [OF h1 h3] by blast
    show ?thesis
      using decode_f_value_policy_fails [OF l decode_password_policy_short [OF h2]]
      by (simp add: error_texts)
  qed
  have d: "\<exists>l p. decode_last_login f = Inr l \<and> decode_password_policy f = Inr p
             \<and> decode_f_value f = Inr (l, p)"
    if h1: "28 \<le> length f" and h2: "u64_at f 8 < FILETIME_END"
  proof -
    obtain l where l: "decode_last_login f = Inr l"
      using decode_last_login_total [of f] h1 h2 by auto
    obtain p where p: "decode_password_policy f = Inr p"
      using decode_password_policy_ok [OF h1] by blast
    show ?thesis using decode_f_value_of_parts [OF l p] l p by blast
  qed
  show ?thesis using a b c d by blast
qed

lemmas f_eval =
  decode_f_value_def decode_f_value_try_def decode_last_login_def decode_password_policy_def
  struct_unpack_def py_slice_def timedelta_microseconds_def datetime_add_def epoch_1601_def
  ymd2ord_def days_before_year_def days_before_month_def DAYS_BEFORE_MONTH_def
  DAYS_IN_MONTH_def is_leap_def MAXORDINAL_def ord2ymd_def find_month_day_def strftime_def
  ascii_def Let_def zpad_2 zpad_4

lemma logon_f_blob_fields:
  "28 \<le> length logon_f_blob" "u64_at logon_f_blob 8 = 129021310000000000"
  "u32_at logon_f_blob 0x18 = 0x220"
  by (simp_all add: logon_f_blob_def u64_at_def u32_at_def)


lemma never_f_blob_fields:
  "28 \<le> length never_f_blob" "u64_at never_f_blob 8 = 0" "u32_at never_f_blob 0x18 = 0x20"
  by (simp_all add: never_f_blob_def u64_at_def u32_at_def)

lemma required_f_blob_fields:
  "28 \<le> length required_f_blob" "u64_at required_f_blob 8 = 0" "u32_at required_f_blob 0x18 = 0x200"
  by (simp_all add: required_f_blob_def u64_at_def u32_at_def)

lemma overflow_f_blob_fields:
  "28 \<le> length overflow_f_blob" "u64_at overflow_f_blob 8 = 0x7FFFFFFFFFFFFFFF"
  "u32_at overflow_f_blob 0x18 = 0x20"
  by (simp_all add: overflow_f_blob_def u64_at_def u32_at_def)

lemma short_f_blob_fields:
  "length short_f_blob = 16" "u64_at short_f_blob 8 = 0"
  by (simp_all add: short_f_blob_def u64_at_def u32_at_def)


theorem password_policy_of_flags_witness:
  "28 \<le> length logon_f_blob \<and> u64_at logon_f_blob 8 < FILETIME_END
   \<and> u32_at logon_f_blob 0x18 = 0x220
   \<and> (\<exists>l. decode_f_value logon_f_blob = Inr (l, ascii ''No Password Required''))
   \<and> 28 \<le> length required_f_blob \<and> u64_at required_f_blob 8 < FILETIME_END
   \<and> u32_at required_f_blob 0x18 = 0x200
   \<and> (\<exists>l. decode_f_value required_f_blob = Inr (l, ascii ''Password Required''))"
proof -
  have 1: "u64_at logon_f_blob 8 < FILETIME_END"
    by (simp add: logon_f_blob_fields FILETIME_END_def)
  have 2: "u64_at required_f_blob 8 < FILETIME_END"
    by (simp add: required_f_blob_fields FILETIME_END_def)
  have 3: "\<exists>l. decode_f_value logon_f_blob = Inr (l, ascii ''No Password Required'')"
    using password_policy_of_flags [OF logon_f_blob_fields(1) 1]
    by (simp add: logon_f_blob_fields)
  have 4: "\<exists>l. decode_f_value required_f_blob = Inr (l, ascii ''Password Required'')"
    using password_policy_of_flags [OF required_f_blob_fields(1) 2]
    by (simp add: required_f_blob_fields)
  show ?thesis
    using 1 2 3 4 logon_f_blob_fields(1,3) required_f_blob_fields(1,3) by blast
qed

text \<open>
  The claim as stated fails: the blob below has 28 bytes and bit 0x20 of its flags is
  set, but its FILETIME cannot be converted, and the policy that \<open>decode_f_value\<close>
  returns is the error text.
\<close>

theorem flags_not_decoded_on_overflow_counterexample:
  "28 \<le> length overflow_f_blob
   \<and> u32_at overflow_f_blob 0x18 = 0x20
   \<and> and (u32_at overflow_f_blob 0x18) 0x20 \<noteq> 0
   \<and> decode_f_value overflow_f_blob
       = Inr (ascii ''Unknown'', ascii ''Error: date value out of range'')
   \<and> ascii ''Error: date value out of range'' \<noteq> ascii ''No Password Required''"
  by (simp add: overflow_f_blob_def u32_at_def f_eval)

theorem f_value_all_or_nothing_witness:
  "length ([] :: bytes) < 16
   \<and> decode_f_value [] = Inr (ascii ''Unknown'', ascii ''Error: unpack requires a buffer of 8 bytes'')
   \<and> 16 \<le> length overflow_f_blob \<and> FILETIME_END \<le> u64_at overflow_f_blob 8
   \<and> decode_f_value overflow_f_blob
       = Inr (ascii ''Unknown'', ascii ''Error: date value out of range'')
   \<and> 16 \<le> length short_f_blob \<and> length short_f_blob < 28
   \<and> u64_at short_f_blob 8 < FILETIME_END
   \<and> decode_f_value short_f_blob
       = Inr (ascii ''Unknown'', ascii ''Error: unpack requires a buffer of 4 bytes'')
   \<and> 28 \<le> length never_f_blob \<and> u64_at never_f_blob 8 < FILETIME_END
   \<and> (\<exists>l p. decode_last_login never_f_blob = Inr l \<and> decode_password_policy never_f_blob = Inr p
            \<and> decode_f_value never_f_blob = Inr (l, p))"
proof -
  have 1: "length ([] :: bytes) < 16" by simp
  have 2: "16 \<le> length overflow_f_blob \<and> FILETIME_END \<le> u64_at overflow_f_blob 8"
    using overflow_f_blob_fields(1) by (simp add: overflow_f_blob_fields(2) FILETIME_END_def)
  have 3: "16 \<le> length short_f_blob \<and> length short_f_blob < 28
      \<and> u64_at short_f_blob 8 < FILETIME_END"
    by (simp add: short_f_blob_fields FILETIME_END_def)
  have 4: "28 \<le> length never_f_blob \<and> u64_at never_f_blob 8 < FILETIME_END"
    by (simp add: never_f_blob_fields FILETIME_END_def)
  have 5: "decode_f_value [] = Inr (ascii ''Unknown'', ascii ''Error: unpack requires a buffer of 8 bytes'')"
    by (rule f_value_all_or_nothing [of "[]", THEN conjunct1, THEN mp, OF 1])
  have 6: "decode_f_value overflow_f_blob
       = Inr (ascii ''Unknown'', ascii ''Error: date value out of range'')"
    by (rule f_value_all_or_nothing
          [of overflow_f_blob, THEN conjunct2, THEN conjunct1, THEN mp, OF 2])
  have 7: "decode_f_value short_f_blob
       = Inr (ascii ''Unknown'', ascii ''Error: unpack requires a buffer of 4 bytes'')"
    by (rule f_value_all_or_nothing
          [of short_f_blob, THEN conjunct2, THEN conjunct2, THEN conjunct1, THEN mp, OF 3])
  have 8: "\<exists>l p. decode_last_login never_f_blob = Inr l \<and> decode_password_policy never_f_blob = Inr p
            \<and> decode_f_value never_f_blob = Inr (l, p)"
    by (rule f_value_all_or_nothing
          [of never_f_blob, THEN conjunct2, THEN conjunct2, THEN conjunct2, THEN mp, OF 4])
  show ?thesis
    by (intro conjI 1 5 6 7 8 conjunct1 [OF 2] conjunct2 [OF 2] conjunct1 [OF 3]
          conjunct1 [OF conjunct2 [OF 3]] conjunct2 [OF conjunct2 [OF 3]]
          conjunct1 [OF 4] conjunct2 [OF 4])
qed

text \<open>
  The claim as stated fails in both directions.  On the blob of 16 zero bytes the
  timestamp decodes to \<open>Never\<close>, but the failing flags read makes the function return
  \<open>Unknown\<close> for it.  On the blob with the FILETIME 0x7FFFFFFFFFFFFFFF the flags decode,
  but the failing conversion makes the function return the error text as the policy.
\<close>

theorem fields_block_each_other_counterexample:
  "decode_last_login short_f_blob = Inr (ascii ''Never'')
   \<and> decode_f_value short_f_blob
       = Inr (ascii ''Unknown'', ascii ''Error: unpack requires a buffer of 4 bytes'')
   \<and> decode_password_policy overflow_f_blob = Inr (ascii ''No Password Required'')
   \<and> decode_f_value overflow_f_blob
       = Inr (ascii ''Unknown'', ascii ''Error: date value out of range'')"
  by (simp add: short_f_blob_def overflow_f_blob_def f_eval)

lemma decode_f_value_try_short:
  assumes "length f < 28"
  shows "\<exists>e. decode_f_value_try f = Inl e"
proof (cases "decode_last_login f")
  case (Inl e)
  then show ?thesis by (simp add: decode_f_value_try_def)
next
  case (Inr l)
  then show ?thesis
    using decode_password_policy_short [OF assms] by (simp add: decode_f_value_try_def)
qed

text \<open>
  Claim C9.  Both decoders return a value for every input: \<open>decode_username\<close> a string
  and \<open>decode_f_value\<close> a pair of strings.  Every exception of the guarded body becomes
  the in-band error value built from its message, and a blob that is empty or too short
  for the fixed fields is such a case.
\<close>

theorem decoders_total:
  "(\<exists>s. decode_username v = Inr s)
   \<and> (\<exists>l p. decode_f_value f = Inr (l, p))
   \<and> (\<forall>e. decode_username_try v = Inl e \<longrightarrow>
          decode_username v = Inr (ascii ''Error decoding username: '' @ exn_str e))
   \<and> (\<forall>e. decode_f_value_try f = Inl e \<longrightarrow>
          decode_f_value f = Inr (ascii ''Unknown'', ascii ''Error: '' @ exn_str e))
   \<and> (length v < 0x14 \<longrightarrow> (\<exists>e. decode_username_try v = Inl e))
   \<and> (length f < 28 \<longrightarrow> (\<exists>e. decode_f_value_try f = Inl e))"
proof -
  have 1: "\<exists>s. decode_username v = Inr s"
    by (cases "decode_username_try v") (simp_all add: decode_username_def)
  have 2: "\<exists>l p. decode_f_value f = Inr (l, p)"
    by (cases "decode_f_value_try f") (auto simp add: decode_f_value_def)
  have 3: "\<forall>e. decode_username_try v = Inl e \<longrightarrow>
          decode_username v = Inr (ascii ''Error decoding username: '' @ exn_str e)"
    by (simp add: decode_username_def)
  have 4: "\<forall>e. decode_f_value_try f = Inl e \<longrightarrow>
          decode_f_value f = Inr (ascii ''Unknown'', ascii ''Error: '' @ exn_str e)"
    by (simp add: decode_f_value_def)
  have 5: "length v < 0x14 \<longrightarrow> (\<exists>e. decode_username_try v = Inl e)"
    using decode_username_try_short [of v] by simp
  have 6: "length f < 28 \<longrightarrow> (\<exists>e. decode_f_value_try f = Inl e)"
    using decode_f_value_try_short [of f] by simp
  show ?thesis using 1 2 3 4 5 6 by blast
qed

theorem decoders_total_witness:
  "decode_username_try [] = Inl (StructError (ascii ''unpack requires a buffer of 2 bytes''))
   \<and> decode_username []
       = Inr (ascii ''Error decoding username: unpack requires a buffer of 2 bytes'')
   \<and> decode_f_value_try short_f_blob
       = Inl (StructError (ascii ''unpack requires a buffer of 4 bytes''))
   \<and> decode_f_value short_f_blob
       = Inr (ascii ''Unknown'', ascii ''Error: unpack requires a buffer of 4 bytes'')"
proof -
  have 1: "decode_username_try [] = Inl (StructError (ascii ''unpack requires a buffer of 2 bytes''))"
    by (simp add: decode_username_try_def struct_unpack_def py_slice_def ascii_def)
  have 2: "decode_f_value_try short_f_blob
       = Inl (StructError (ascii ''unpack requires a buffer of 4 bytes''))"
    by (simp add: short_f_blob_def decode_f_value_try_def decode_last_login_def
          decode_password_policy_def struct_unpack_def py_slice_def ascii_def)
  have "decode_username []
       = Inr (ascii ''Error decoding username: '' @ ascii ''unpack requires a buffer of 2 bytes'')"
    using decoders_total [of "[]" short_f_blob] 1 by simp
  moreover have "decode_f_value short_f_blob
       = Inr (ascii ''Unknown'', ascii ''Error: '' @ ascii ''unpack requires a buffer of 4 bytes'')"
    using decoders_total [of "[]" short_f_blob] 2 by simp
  ultimately show ?thesis using 1 2 by (simp add: ascii_def)
qed


section \<open>The loop over the user subkeys\<close>

lemma subkey_try_cases:
  "subkey_value k (ascii ''V'') = Inl e \<Longrightarrow> subkey_try console k out = (Some e, out)"
  "subkey_value k (ascii ''V'') = Inr v \<Longrightarrow> subkey_value k (ascii ''F'') = Inl e \<Longrightarrow>
     subkey_try console k out = (Some e, out)"
  "subkey_value k (ascii ''V'') = Inr v \<Longrightarrow> subkey_value k (ascii ''F'') = Inr f \<Longrightarrow>
     decode_username v = Inr u \<Longrightarrow> decode_f_value f = Inr (l, p) \<Longrightarrow>
     subkey_try console k out =
       py_seq (py_print console (ascii ''Username: '' @ u))
         (py_seq (py_print console (ascii ''Last Login: '' @ l))
            (py_print console (ascii ''Password Policy: '' @ p))) out"
  by (simp_all add: subkey_try_def py_raise_def)

lemma process_subkey_cases:
  "subkey_name k = Inl e \<Longrightarrow> process_subkey console k out = (Some e, out)"
  "subkey_name k = Inr n \<Longrightarrow> console out (header_line n) = Some e \<Longrightarrow>
     process_subkey console k out = (Some e, out)"
  "subkey_name k = Inr n \<Longrightarrow> console out (header_line n) = None \<Longrightarrow>
     subkey_try console k (out @ [header_line n]) = (None, out') \<Longrightarrow>
     process_subkey console k out = (None, out')"
  "subkey_name k = Inr n \<Longrightarrow> console out (header_line n) = None \<Longrightarrow>
     subkey_try console k (out @ [header_line n]) = (Some x, out') \<Longrightarrow>
     process_subkey console k out = py_print console (error_line n x) out'"
  by (simp_all add: process_subkey_def py_raise_def py_seq_def try_except_def py_print_def
        header_line_def error_line_def)

lemma decode_username_Inr: "\<exists>u. decode_username v = Inr u"
  by (cases "decode_username_try v") (simp_all add: decode_username_def)

lemma decode_f_value_Inr: "\<exists>l p. decode_f_value f = Inr (l, p)"
  by (cases "decode_f_value_try f") (auto simp add: decode_f_value_def)

lemma not_header:
  "\<not> is_header (ascii ''Username: '' @ u)" "\<not> is_header (ascii ''Last Login: '' @ l)"
  "\<not> is_header (ascii ''Password Policy: '' @ p)" "\<not> is_header (error_line n e)"
  "is_header (header_line n)"
  by (simp_all add: is_header_def ascii_def header_line_def error_line_def)

lemma py_print_headers:
  "\<not> is_header s \<Longrightarrow> filter is_header (snd (py_print console s out)) = filter is_header out"
  by (cases "console out s") (simp_all add: py_print_def)

lemma py_seq_headers:
  assumes "\<And>out. filter is_header (snd (a out)) = filter is_header out"
    and "\<And>out. filter is_header (snd (b out)) = filter is_header out"
  shows "filter is_header (snd (py_seq a b out)) = filter is_header out"
proof (cases "a out")
  case (Pair x o1)
  then have "filter is_header o1 = filter is_header out" using assms(1) [of out] by simp
  then show ?thesis
    using Pair assms(2) [of o1] by (cases x) (simp_all add: py_seq_def)
qed

lemma subkey_try_headers:
  "filter is_header (snd (subkey_try console k out)) = filter is_header out"
  unfolding subkey_try_def
  by (auto split: sum.splits prod.splits simp add: py_raise_def
        intro!: py_seq_headers py_print_headers not_header)

text \<open>
  One pass of the loop prints the header of the subkey once, or it prints nothing and
  lets an exception escape.
\<close>

lemma process_subkey_headers_any:
  "filter is_header (snd (process_subkey console k out)) = filter is_header out @ [header k]
   \<or> (fst (process_subkey console k out) \<noteq> None
       \<and> filter is_header (snd (process_subkey console k out)) = filter is_header out)"
proof (cases "subkey_name k")
  case (Inl e)
  then show ?thesis by (simp add: process_subkey_cases(1))
next
  case (Inr n)
  show ?thesis
  proof (cases "console out (header_line n)")
    case (Some e)
    then show ?thesis using Inr by (simp add: process_subkey_cases(2))
  next
    case None
    note hn = this
    obtain x out' where t: "subkey_try console k (out @ [header_line n]) = (x, out')"
      by (cases "subkey_try console k (out @ [header_line n])")
    have h: "filter is_header out' = filter is_header out @ [header k]"
      using subkey_try_headers [of console k "out @ [header_line n]"] t Inr
      by (simp add: not_header header_def)
    show ?thesis
    proof (cases x)
      case None
      then have "process_subkey console k out = (None, out')"
        using process_subkey_cases(3) [of k n console out out'] Inr hn t by simp
      then show ?thesis using h by simp
    next
      case (Some e)
      then have "process_subkey console k out = py_print console (error_line n e) out'"
        using process_subkey_cases(4) [of k n console out e out'] Inr hn t by simp
      then show ?thesis using h by (simp add: py_print_headers not_header)
    qed
  qed
qed

lemma process_subkey_headers:
  assumes "fst (process_subkey console k out) = None"
  shows "filter is_header (snd (process_subkey console k out)) = filter is_header out @ [header k]"
  using process_subkey_headers_any [of console k out] assms by simp

text \<open>An exception leaves one pass of the loop only from a step outside the \<open>try\<close>.\<close>

lemma process_subkey_escape:
  assumes "fst (process_subkey console k out) = Some e"
  shows "subkey_name k = Inl e
         \<or> (\<exists>n. subkey_name k = Inr n
                 \<and> (console out (header_line n) = Some e
                     \<or> (\<exists>x out'. console out' (error_line n x) = Some e)))"
proof (cases "subkey_name k")
  case (Inl e')
  then show ?thesis using assms by (simp add: process_subkey_cases(1))
next
  case (Inr n)
  show ?thesis
  proof (cases "console out (header_line n)")
    case (Some e')
    then show ?thesis using Inr assms by (simp add: process_subkey_cases(2))
  next
    case None
    note hn = this
    obtain x out' where t: "subkey_try console k (out @ [header_line n]) = (x, out')"
      by (cases "subkey_try console k (out @ [header_line n])")
    show ?thesis
    proof (cases x)
      case None
      then have "process_subkey console k out = (None, out')"
        using process_subkey_cases(3) [of k n console out out'] Inr hn t by simp
      then show ?thesis using assms by simp
    next
      case (Some x')
      then have p: "process_subkey console k out = py_print console (error_line n x') out'"
        using process_subkey_cases(4) [of k n console out x' out'] Inr hn t by simp
      have "console out' (error_line n x') = Some e"
        using assms unfolding p by (cases "console out' (error_line n x')")
          (simp_all add: py_print_def)
      then show ?thesis using Inr by blast
    qed
  qed
qed

lemma process_subkey_no_escape:
  assumes "\<And>out s. console out s = None" "subkey_name k = Inr n"
  shows "fst (process_subkey console k out) = None"
proof (cases "fst (process_subkey console k out)")
  case None
  then show ?thesis .
next
  case (Some e)
  then show ?thesis
    using process_subkey_escape [of console k out e] assms by simp
qed


lemma user_loop_step:
  assumes "subkey_name k = Inr n" "n \<noteq> ascii ''Names''"
  shows "user_loop console (k # ks) out
           = (case process_subkey console k out of
                (None, out') \<Rightarrow> user_loop console ks out'
              | (Some e, out') \<Rightarrow> (Some e, out'))"
  using assms by (simp add: py_seq_def)

text \<open>
  The headers in the output are those of the first \<open>m\<close> subkeys that are not named
  \<open>Names\<close>, in the order of the enumeration; all of them when the loop returns.
\<close>

lemma user_loop_headers_any:
  "\<exists>m\<le>length (filter not_Names ks).
     filter is_header (snd (user_loop console ks out))
       = filter is_header out @ map header (take m (filter not_Names ks))
     \<and> (fst (user_loop console ks out) = None \<longrightarrow> m = length (filter not_Names ks))"
proof (induction ks arbitrary: out)
  case Nil
  show ?case by simp
next
  case (Cons k ks)
  show ?case
  proof (cases "subkey_name k")
    case (Inl e)
    then have loop: "user_loop console (k # ks) out = (Some e, out)"
      by (simp add: py_raise_def)
    show ?thesis
      unfolding loop by (rule exI [of _ 0]) simp
  next
    case (Inr n)
    show ?thesis
    proof (cases "n = ascii ''Names''")
      case True
      then have nn: "\<not> not_Names k" using Inr by (simp add: not_Names_def)
      have loop: "user_loop console (k # ks) out = user_loop console ks out"
        using Inr True by simp
      have f: "filter not_Names (k # ks) = filter not_Names ks" using nn by simp
      show ?thesis unfolding loop f by (rule Cons)
    next
      case False
      then have nn: "not_Names k" using Inr by (simp add: not_Names_def)
      have f: "filter not_Names (k # ks) = k # filter not_Names ks" using nn by simp
      obtain x out' where p: "process_subkey console k out = (x, out')"
        by (cases "process_subkey console k out")
      show ?thesis
      proof (cases x)
        case None
        then have loop: "user_loop console (k # ks) out = user_loop console ks out'"
          using user_loop_step [OF Inr False, of console ks out] p by simp
        have h: "filter is_header out' = filter is_header out @ [header k]"
          using process_subkey_headers [of console k out] p None by simp
        from Cons [of out'] obtain m where m: "m \<le> length (filter not_Names ks) \<and>
          filter is_header (snd (user_loop console ks out'))
             = filter is_header out' @ map header (take m (filter not_Names ks)) \<and>
          (fst (user_loop console ks out') = None \<longrightarrow> m = length (filter not_Names ks))" ..
        have 1: "Suc m \<le> length (k # filter not_Names ks)"
          using m [THEN conjunct1] by simp
        have 2: "filter is_header (snd (user_loop console ks out'))
             = filter is_header out @ map header (take (Suc m) (k # filter not_Names ks))"
          using m [THEN conjunct2, THEN conjunct1] h by simp
        have 3: "fst (user_loop console ks out') = None \<longrightarrow>
                   Suc m = length (k # filter not_Names ks)"
          using m [THEN conjunct2, THEN conjunct2] by simp
        show ?thesis
          unfolding loop f by (intro exI [of _ "Suc m"] conjI 1 2 3)
      next
        case (Some e)
        then have loop: "user_loop console (k # ks) out = (Some e, out')"
          using user_loop_step [OF Inr False, of console ks out] p by simp
        have "filter is_header out' = filter is_header out @ [header k]
              \<or> filter is_header out' = filter is_header out"
          using process_subkey_headers_any [of console k out] p by auto
        then show ?thesis
        proof
          assume one: "filter is_header out' = filter is_header out @ [header k]"
          show ?thesis
            unfolding loop f using one by (intro exI [of _ "Suc 0"]) simp
        next
          assume none: "filter is_header out' = filter is_header out"
          show ?thesis
            unfolding loop f using none by (intro exI [of _ 0]) simp
        qed
      qed
    qed
  qed
qed

lemma user_loop_headers:
  assumes "fst (user_loop console ks out) = None"
  shows "filter is_header (snd (user_loop console ks out))
           = filter is_header out @ map header (filter not_Names ks)"
proof -
  obtain m where m: "m \<le> length (filter not_Names ks)"
    "filter is_header (snd (user_loop console ks out))
       = filter is_header out @ map header (take m (filter not_Names ks))"
    "fst (user_loop console ks out) = None \<longrightarrow> m = length (filter not_Names ks)"
    using user_loop_headers_any [of ks console out] by (elim exE conjE)
  have "m = length (filter not_Names ks)" using m(3) assms by simp
  then show ?thesis using m(2) by simp
qed

lemma user_loop_no_escape:
  assumes "\<And>out s. console out s = None" "\<forall>k\<in>set ks. \<exists>n. subkey_name k = Inr n"
  shows "fst (user_loop console ks out) = None"
  using assms(2)
proof (induction ks arbitrary: out)
  case Nil
  show ?case by simp
next
  case (Cons k ks)
  obtain n where n: "subkey_name k = Inr n" using Cons.prems by auto
  obtain x out' where p: "process_subkey console k out = (x, out')"
    by (cases "process_subkey console k out")
  have ih: "fst (user_loop console ks o') = None" for o'
    using Cons.IH Cons.prems by simp
  have "x = None" using process_subkey_no_escape [of console k n out] assms(1) n p by simp
  then show ?case
    using ih [of out] ih [of out'] n p by (simp add: py_seq_def)
qed


lemma jane_decoded: "decode_username jane_v_blob = Inr (ascii ''Jane'')"
  by (simp add: jane_v_blob_def decode_username_def decode_username_try_def struct_unpack_def
        blob_eval)

lemma accent_decoded: "decode_username accent_v_blob = Inr (ascii ''Ren'' @ [233])"
  by (simp add: accent_v_blob_def decode_username_def decode_username_try_def struct_unpack_def
        blob_eval)

lemma never_decoded:
  "decode_f_value never_f_blob = Inr (ascii ''Never'', ascii ''No Password Required'')"
  by (simp add: never_f_blob_def decode_f_value_def decode_f_value_try_def decode_last_login_def
        decode_password_policy_def struct_unpack_def py_slice_def ascii_def)

lemma example_names:
  "subkey_name jane_subkey = Inr (ascii ''1001'')"
  "subkey_name no_f_subkey = Inr (ascii ''1002'')"
  "subkey_name names_subkey = Inr (ascii ''Names'')"
  "subkey_name accent_subkey = Inr (ascii ''Ren'' @ [233])"
  "subkey_name rene_subkey = Inr (ascii ''1004'')"
  "subkey_name unnamed_subkey = Inl (RegistryError (ascii ''cannot read the key name''))"
  by (simp_all add: jane_subkey_def no_f_subkey_def names_subkey_def accent_subkey_def
        rene_subkey_def unnamed_subkey_def)

lemma example_not_Names:
  "not_Names jane_subkey" "not_Names no_f_subkey" "\<not> not_Names names_subkey"
  "not_Names accent_subkey"
  by (simp_all add: not_Names_def example_names) (simp_all add: ascii_def)

lemma example_values:
  "subkey_value no_f_subkey (ascii ''V'') = Inr jane_v_blob"
  "subkey_value no_f_subkey (ascii ''F'') = Inl (RegistryError (ascii ''no such value''))"
  "subkey_value jane_subkey (ascii ''V'') = Inr jane_v_blob"
  "subkey_value jane_subkey (ascii ''F'') = Inr never_f_blob"
  "subkey_value rene_subkey (ascii ''V'') = Inr accent_v_blob"
  "subkey_value rene_subkey (ascii ''F'') = Inr never_f_blob"
  by (simp_all add: no_f_subkey_def jane_subkey_def rene_subkey_def ascii_def)

lemma example_consoles:
  "plain_console out s = None"
  "ascii_console out (header_line (ascii ''1001'')) = None"
  "ascii_console out (header_line (ascii ''1004'')) = None"
  "ascii_console out (header_line (ascii ''Ren'' @ [233]))
     = Some (PrintError (ascii ''character maps to <undefined>''))"
  "ascii_console out (username_line (ascii ''Ren'' @ [233]))
     = Some (PrintError (ascii ''character maps to <undefined>''))"
  "ascii_console out (error_line (ascii ''1004'')
                        (PrintError (ascii ''character maps to <undefined>''))) = None"
  by (simp_all add: plain_console_def ascii_console_def header_line_def username_line_def
        error_line_def ascii_def)

lemma example_lines:
  "header_line (ascii ''1001'') = 10 # ascii ''User RID: 1001''"
  "header_line (ascii ''1002'') = 10 # ascii ''User RID: 1002''"
  "header_line (ascii ''1004'') = 10 # ascii ''User RID: 1004''"
  "username_line (ascii ''Jane'') = ascii ''Username: Jane''"
  "last_login_line (ascii ''Never'') = ascii ''Last Login: Never''"
  "password_policy_line (ascii ''No Password Required'')
     = ascii ''Password Policy: No Password Required''"
  "error_line (ascii ''1002'') (RegistryError (ascii ''no such value''))
     = ascii ''Error processing subkey 1002: no such value''"
  "error_line (ascii ''1004'') (PrintError (ascii ''character maps to <undefined>''))
     = ascii ''Error processing subkey 1004: character maps to <undefined>''"
  by (simp_all add: header_line_def username_line_def last_login_line_def
        password_policy_line_def error_line_def ascii_def)

lemma subkey_try_lines:
  assumes "subkey_value k (ascii ''V'') = Inr v" "subkey_value k (ascii ''F'') = Inr f"
    and "decode_username v = Inr u" "decode_f_value f = Inr (l, p)"
  shows "subkey_try console k out =
           py_seq (py_print console (username_line u))
             (py_seq (py_print console (last_login_line l))
                (py_print console (password_policy_line p))) out"
  using subkey_try_cases(3) [of k v f u l p console out] assms
  by (simp add: username_line_def last_login_line_def password_policy_line_def)

lemma three_prints:
  "console out a = None \<Longrightarrow> console (out @ [a]) b = None \<Longrightarrow> console (out @ [a, b]) c = None \<Longrightarrow>
     py_seq (py_print console a) (py_seq (py_print console b) (py_print console c)) out
       = (None, out @ [a, b, c])"
  "console out a = Some x \<Longrightarrow>
     py_seq (py_print console a) (py_seq (py_print console b) (py_print console c)) out
       = (Some x, out)"
  "console out a = None \<Longrightarrow> console (out @ [a]) b = Some x \<Longrightarrow>
     py_seq (py_print console a) (py_seq (py_print console b) (py_print console c)) out
       = (Some x, out @ [a])"
  "console out a = None \<Longrightarrow> console (out @ [a]) b = None \<Longrightarrow> console (out @ [a, b]) c = Some x \<Longrightarrow>
     py_seq (py_print console a) (py_seq (py_print console b) (py_print console c)) out
       = (Some x, out @ [a, b])"
  by (simp_all add: py_seq_def py_print_def)




text \<open>
  Claim C6, as the code has it.  One pass of the loop for a subkey \<open>k\<close>, with \<open>out\<close>
  printed so far:

  \<^item> if the name cannot be read, or the header cannot be printed, the exception leaves the
    pass and nothing is printed;

  \<^item> if \<open>V\<close> is absent, or \<open>V\<close> is present and \<open>F\<close> is absent, no decoder runs: after
    the header, the line \<open>Error processing subkey\<close> with the name and the message of the
    library's exception is printed;

  \<^item> if both values are present, the decoders return and the three lines are printed
    after the header; when \<open>print\<close> raises for one of the three, the lines before it
    stay, and the line \<open>Error processing subkey\<close> with the message of that exception is
    printed;

  \<^item> an exception leaves the pass only from reading the name, from printing the header or
    from printing the error line.

  When the loop returns, the output holds exactly one header for each enumerated subkey
  that is not named \<open>Names\<close>, in the order of the enumeration.  The loop returns when
  every \<open>print\<close> succeeds and every name can be read.
\<close>

theorem one_block_per_subkey:
  "(\<forall>e. subkey_name k = Inl e \<longrightarrow> process_subkey console k out = (Some e, out))
   \<and> (\<forall>n e. subkey_name k = Inr n \<and> console out (header_line n) = Some e \<longrightarrow>
          process_subkey console k out = (Some e, out))
   \<and> (\<forall>n e. subkey_name k = Inr n \<and> console out (header_line n) = None
            \<and> (subkey_value k (ascii ''V'') = Inl e
                \<or> (\<exists>v. subkey_value k (ascii ''V'') = Inr v)
                    \<and> subkey_value k (ascii ''F'') = Inl e) \<longrightarrow>
          process_subkey console k out
            = py_print console (error_line n e) (out @ [header_line n]))
   \<and> (\<forall>n v f. subkey_name k = Inr n \<and> console out (header_line n) = None
            \<and> subkey_value k (ascii ''V'') = Inr v \<and> subkey_value k (ascii ''F'') = Inr f \<longrightarrow>
          (\<exists>u l p. decode_username v = Inr u \<and> decode_f_value f = Inr (l, p)
             \<and> (console (out @ [header_line n]) (username_line u) = None
                 \<and> console (out @ [header_line n, username_line u]) (last_login_line l) = None
                 \<and> console (out @ [header_line n, username_line u, last_login_line l])
                      (password_policy_line p) = None \<longrightarrow>
                 process_subkey console k out
                   = (None, out @ [header_line n, username_line u, last_login_line l,
                                   password_policy_line p]))
             \<and> (\<forall>x. console (out @ [header_line n]) (username_line u) = Some x \<longrightarrow>
                   process_subkey console k out
                     = py_print console (error_line n x) (out @ [header_line n]))
             \<and> (\<forall>x. console (out @ [header_line n]) (username_line u) = None
                    \<and> console (out @ [header_line n, username_line u]) (last_login_line l)
                        = Some x \<longrightarrow>
                   process_subkey console k out
                     = py_print console (error_line n x)
                         (out @ [header_line n, username_line u]))
             \<and> (\<forall>x. console (out @ [header_line n]) (username_line u) = None
                    \<and> console (out @ [header_line n, username_line u]) (last_login_line l) = None
                    \<and> console (out @ [header_line n, username_line u, last_login_line l])
                         (password_policy_line p) = Some x \<longrightarrow>
                   process_subkey console k out
                     = py_print console (error_line n x)
                         (out @ [header_line n, username_line u, last_login_line l]))))
   \<and> (\<forall>e. fst (process_subkey console k out) = Some e \<longrightarrow>
          subkey_name k = Inl e
          \<or> (\<exists>n. subkey_name k = Inr n
                  \<and> (console out (header_line n) = Some e
                      \<or> (\<exists>x out'. console out' (error_line n x) = Some e))))
   \<and> (fst (user_loop console ks out) = None \<longrightarrow>
          filter is_header (snd (user_loop console ks out))
            = filter is_header out @ map header (filter not_Names ks))
   \<and> ((\<forall>out s. console out s = None) \<and> (\<forall>k\<in>set ks. \<exists>n. subkey_name k = Inr n) \<longrightarrow>
          fst (user_loop console ks out) = None)"
proof -
  have 1: "\<forall>e. subkey_name k = Inl e \<longrightarrow> process_subkey console k out = (Some e, out)"
    by (simp add: process_subkey_cases(1))
  have 2: "\<forall>n e. subkey_name k = Inr n \<and> console out (header_line n) = Some e \<longrightarrow>
          process_subkey console k out = (Some e, out)"
    by (simp add: process_subkey_cases(2))
  have 3: "\<forall>n e. subkey_name k = Inr n \<and> console out (header_line n) = None
            \<and> (subkey_value k (ascii ''V'') = Inl e
                \<or> (\<exists>v. subkey_value k (ascii ''V'') = Inr v)
                    \<and> subkey_value k (ascii ''F'') = Inl e) \<longrightarrow>
          process_subkey console k out
            = py_print console (error_line n e) (out @ [header_line n])"
  proof (intro allI impI)
    fix n e
    assume a: "subkey_name k = Inr n \<and> console out (header_line n) = None
            \<and> (subkey_value k (ascii ''V'') = Inl e
                \<or> (\<exists>v. subkey_value k (ascii ''V'') = Inr v)
                    \<and> subkey_value k (ascii ''F'') = Inl e)"
    then have "subkey_try console k (out @ [header_line n]) = (Some e, out @ [header_line n])"
      using subkey_try_cases(1) [of k e console "out @ [header_line n]"]
        subkey_try_cases(2) [of k _ e console "out @ [header_line n]"]
      by auto
    then show "process_subkey console k out
            = py_print console (error_line n e) (out @ [header_line n])"
      using process_subkey_cases(4) [of k n console out e "out @ [header_line n]"] a by simp
  qed
  have 4: "\<forall>n v f. subkey_name k = Inr n \<and> console out (header_line n) = None
            \<and> subkey_value k (ascii ''V'') = Inr v \<and> subkey_value k (ascii ''F'') = Inr f \<longrightarrow>
          (\<exists>u l p. decode_username v = Inr u \<and> decode_f_value f = Inr (l, p)
             \<and> (console (out @ [header_line n]) (username_line u) = None
                 \<and> console (out @ [header_line n, username_line u]) (last_login_line l) = None
                 \<and> console (out @ [header_line n, username_line u, last_login_line l])
                      (password_policy_line p) = None \<longrightarrow>
                 process_subkey console k out
                   = (None, out @ [header_line n, username_line u, last_login_line l,
                                   password_policy_line p]))
             \<and> (\<forall>x. console (out @ [header_line n]) (username_line u) = Some x \<longrightarrow>
                   process_subkey console k out
                     = py_print console (error_line n x) (out @ [header_line n]))
             \<and> (\<forall>x. console (out @ [header_line n]) (username_line u) = None
                    \<and> console (out @ [header_line n, username_line u]) (last_login_line l)
                        = Some x \<longrightarrow>
                   process_subkey console k out
                     = py_print console (error_line n x)
                         (out @ [header_line n, username_line u]))
             \<and> (\<forall>x. console (out @ [header_line n]) (username_line u) = None
                    \<and> console (out @ [header_line n, username_line u]) (last_login_line l) = None
                    \<and> console (out @ [header_line n, username_line u, last_login_line l])
                         (password_policy_line p) = Some x \<longrightarrow>
                   process_subkey console k out
                     = py_print console (error_line n x)
                         (out @ [header_line n, username_line u, last_login_line l])))"
  proof (intro allI impI)
    fix n v f
    assume a: "subkey_name k = Inr n \<and> console out (header_line n) = None
            \<and> subkey_value k (ascii ''V'') = Inr v \<and> subkey_value k (ascii ''F'') = Inr f"
    obtain u where u: "decode_username v = Inr u" using decode_username_Inr by blast
    obtain l p where lp: "decode_f_value f = Inr (l, p)" using decode_f_value_Inr by blast
    let ?o = "out @ [header_line n]"
    have t: "subkey_try console k ?o =
           py_seq (py_print console (username_line u))
             (py_seq (py_print console (last_login_line l))
                (py_print console (password_policy_line p))) ?o"
      using subkey_try_lines [of k v f u l p console ?o] a u lp by simp
    have b1: "process_subkey console k out
                = (None, out @ [header_line n, username_line u, last_login_line l,
                                password_policy_line p])"
      if "console ?o (username_line u) = None
          \<and> console (out @ [header_line n, username_line u]) (last_login_line l) = None
          \<and> console (out @ [header_line n, username_line u, last_login_line l])
                      (password_policy_line p) = None"
    proof -
      have "subkey_try console k ?o
              = (None, ?o @ [username_line u, last_login_line l, password_policy_line p])"
        unfolding t using that
        by (intro three_prints(1)) simp_all
      then show ?thesis
        using process_subkey_cases(3) [of k n console out
            "?o @ [username_line u, last_login_line l, password_policy_line p]"] a
        by simp
    qed
    have b2: "process_subkey console k out = py_print console (error_line n x) ?o"
      if "console ?o (username_line u) = Some x" for x
    proof -
      have "subkey_try console k ?o = (Some x, ?o)"
        unfolding t using that by (intro three_prints(2))
      then show ?thesis
        using process_subkey_cases(4) [of k n console out x ?o] a by simp
    qed
    have b3: "process_subkey console k out
                = py_print console (error_line n x) (out @ [header_line n, username_line u])"
      if "console ?o (username_line u) = None
          \<and> console (out @ [header_line n, username_line u]) (last_login_line l) = Some x" for x
    proof -
      have "subkey_try console k ?o = (Some x, ?o @ [username_line u])"
        unfolding t using that by (intro three_prints(3)) simp_all
      then show ?thesis
        using process_subkey_cases(4) [of k n console out x "?o @ [username_line u]"] a by simp
    qed
    have b4: "process_subkey console k out
                = py_print console (error_line n x)
                    (out @ [header_line n, username_line u, last_login_line l])"
      if "console ?o (username_line u) = None
          \<and> console (out @ [header_line n, username_line u]) (last_login_line l) = None
          \<and> console (out @ [header_line n, username_line u, last_login_line l])
                         (password_policy_line p) = Some x" for x
    proof -
      have "subkey_try console k ?o = (Some x, ?o @ [username_line u, last_login_line l])"
        unfolding t using that by (intro three_prints(4)) simp_all
      then show ?thesis
        using process_subkey_cases(4) [of k n console out x
            "?o @ [username_line u, last_login_line l]"] a
        by simp
    qed
    show "\<exists>u l p. decode_username v = Inr u \<and> decode_f_value f = Inr (l, p)
             \<and> (console (out @ [header_line n]) (username_line u) = None
                 \<and> console (out @ [header_line n, username_line u]) (last_login_line l) = None
                 \<and> console (out @ [header_line n, username_line u, last_login_line l])
                      (password_policy_line p) = None \<longrightarrow>
                 process_subkey console k out
                   = (None, out @ [header_line n, username_line u, last_login_line l,
                                   password_policy_line p]))
             \<and> (\<forall>x. console (out @ [header_line n]) (username_line u) = Some x \<longrightarrow>
                   process_subkey console k out
                     = py_print console (error_line n x) (out @ [header_line n]))
             \<and> (\<forall>x. console (out @ [header_line n]) (username_line u) = None
                    \<and> console (out @ [header_line n, username_line u]) (last_login_line l)
                        = Some x \<longrightarrow>
                   process_subkey console k out
                     = py_print console (error_line n x)
                         (out @ [header_line n, username_line u]))
             \<and> (\<forall>x. console (out @ [header_line n]) (username_line u) = None
                    \<and> console (out @ [header_line n, username_line u]) (last_login_line l) = None
                    \<and> console (out @ [header_line n, username_line u, last_login_line l])
                         (password_policy_line p) = Some x \<longrightarrow>
                   process_subkey console k out
                     = py_print console (error_line n x)
                         (out @ [header_line n, username_line u, last_login_line l]))"
      apply (rule exI [of _ u])
      apply (rule exI [of _ l])
      apply (rule exI [of _ p])
      apply (intro conjI allI impI)
           apply (rule u)
          apply (rule lp)
         apply (rule b1, assumption)
        apply (rule b2, assumption)
       apply (rule b3, assumption)
      apply (rule b4, assumption)
      done
  qed
  have 5: "\<forall>e. fst (process_subkey console k out) = Some e \<longrightarrow>
          subkey_name k = Inl e
          \<or> (\<exists>n. subkey_name k = Inr n
                  \<and> (console out (header_line n) = Some e
                      \<or> (\<exists>x out'. console out' (error_line n x) = Some e)))"
    by (intro allI impI process_subkey_escape)
  have 6: "fst (user_loop console ks out) = None \<longrightarrow>
          filter is_header (snd (user_loop console ks out))
            = filter is_header out @ map header (filter not_Names ks)"
    by (intro impI user_loop_headers)
  have 7: "(\<forall>out s. console out s = None) \<and> (\<forall>k\<in>set ks. \<exists>n. subkey_name k = Inr n) \<longrightarrow>
          fst (user_loop console ks out) = None"
  proof
    assume a: "(\<forall>out s. console out s = None) \<and> (\<forall>k\<in>set ks. \<exists>n. subkey_name k = Inr n)"
    show "fst (user_loop console ks out) = None"
      using user_loop_no_escape [of console ks out] a by simp
  qed
  show ?thesis by (intro conjI 1 2 3 4 5 6 7)
qed

theorem one_block_per_subkey_witness:
  "process_subkey plain_console unnamed_subkey []
     = (Some (RegistryError (ascii ''cannot read the key name'')), [])
   \<and> process_subkey ascii_console accent_subkey []
       = (Some (PrintError (ascii ''character maps to <undefined>'')), [])
   \<and> process_subkey plain_console no_f_subkey []
       = (None, [10 # ascii ''User RID: 1002'',
                 ascii ''Error processing subkey 1002: no such value''])
   \<and> process_subkey plain_console jane_subkey []
       = (None, [10 # ascii ''User RID: 1001'', ascii ''Username: Jane'',
                 ascii ''Last Login: Never'', ascii ''Password Policy: No Password Required''])
   \<and> process_subkey ascii_console rene_subkey []
       = (None, [10 # ascii ''User RID: 1004'',
                 ascii ''Error processing subkey 1004: character maps to <undefined>''])
   \<and> process_subkey full_console jane_subkey []
       = (Some (PrintError (ascii ''[Errno 28] No space left on device'')),
          [10 # ascii ''User RID: 1001'', ascii ''Username: Jane'', ascii ''Last Login: Never''])
   \<and> fst (user_loop plain_console [names_subkey, jane_subkey, no_f_subkey] []) = None
   \<and> filter is_header (snd (user_loop plain_console [names_subkey, jane_subkey, no_f_subkey] []))
       = [10 # ascii ''User RID: 1001'', 10 # ascii ''User RID: 1002'']"
proof -
  have 1: "process_subkey plain_console unnamed_subkey []
     = (Some (RegistryError (ascii ''cannot read the key name'')), [])"
    using one_block_per_subkey
      [where k = unnamed_subkey and console = plain_console and out = "[]" and ks = "[]",
       THEN conjunct1]
      example_names(6)
    by simp
  have 2: "process_subkey ascii_console accent_subkey []
       = (Some (PrintError (ascii ''character maps to <undefined>'')), [])"
    using one_block_per_subkey
      [where k = accent_subkey and console = ascii_console and out = "[]" and ks = "[]",
       THEN conjunct2, THEN conjunct1, rule_format,
       of "ascii ''Ren'' @ [233]" "PrintError (ascii ''character maps to <undefined>'')"]
      example_names(4) example_consoles(4)
    by simp
  have "process_subkey plain_console no_f_subkey []
       = py_print plain_console
           (error_line (ascii ''1002'') (RegistryError (ascii ''no such value'')))
           ([] @ [header_line (ascii ''1002'')])"
    using one_block_per_subkey
      [where k = no_f_subkey and console = plain_console and out = "[]" and ks = "[]",
       THEN conjunct2, THEN conjunct2, THEN conjunct1, rule_format,
       of "ascii ''1002''" "RegistryError (ascii ''no such value'')"]
      example_names(2) example_consoles(1) example_values(1,2)
    by simp
  then have 3: "process_subkey plain_console no_f_subkey []
       = (None, [10 # ascii ''User RID: 1002'',
                 ascii ''Error processing subkey 1002: no such value''])"
    by (simp add: py_print_def example_consoles(1) example_lines)
  have "\<exists>u l p. decode_username jane_v_blob = Inr u \<and> decode_f_value never_f_blob = Inr (l, p)
          \<and> (plain_console ([] @ [header_line (ascii ''1001'')]) (username_line u) = None
              \<and> plain_console ([] @ [header_line (ascii ''1001''), username_line u])
                   (last_login_line l) = None
              \<and> plain_console ([] @ [header_line (ascii ''1001''), username_line u,
                                     last_login_line l])
                   (password_policy_line p) = None \<longrightarrow>
              process_subkey plain_console jane_subkey []
                = (None, [] @ [header_line (ascii ''1001''), username_line u, last_login_line l,
                               password_policy_line p]))"
    using one_block_per_subkey
      [where k = jane_subkey and console = plain_console and out = "[]" and ks = "[]",
       THEN conjunct2, THEN conjunct2, THEN conjunct2, THEN conjunct1, rule_format,
       of "ascii ''1001''" jane_v_blob never_f_blob]
      example_names(1) example_consoles(1) example_values(3,4)
    by blast
  then have 4: "process_subkey plain_console jane_subkey []
       = (None, [10 # ascii ''User RID: 1001'', ascii ''Username: Jane'',
                 ascii ''Last Login: Never'', ascii ''Password Policy: No Password Required''])"
    by (simp add: jane_decoded never_decoded example_consoles(1) example_lines)
  have "\<exists>u l p. decode_username accent_v_blob = Inr u \<and> decode_f_value never_f_blob = Inr (l, p)
          \<and> (\<forall>x. ascii_console ([] @ [header_line (ascii ''1004'')]) (username_line u) = Some x \<longrightarrow>
                 process_subkey ascii_console rene_subkey []
                   = py_print ascii_console (error_line (ascii ''1004'') x)
                       ([] @ [header_line (ascii ''1004'')]))"
    using one_block_per_subkey
      [where k = rene_subkey and console = ascii_console and out = "[]" and ks = "[]",
       THEN conjunct2, THEN conjunct2, THEN conjunct2, THEN conjunct1, rule_format,
       of "ascii ''1004''" accent_v_blob never_f_blob]
      example_names(5) example_consoles(3) example_values(5,6)
    by blast
  then have "process_subkey ascii_console rene_subkey []
               = py_print ascii_console
                   (error_line (ascii ''1004'')
                      (PrintError (ascii ''character maps to <undefined>'')))
                   ([] @ [header_line (ascii ''1004'')])"
    by (simp add: accent_decoded never_decoded example_consoles(5))
  then have "process_subkey ascii_console rene_subkey []
               = (None, [header_line (ascii ''1004''),
                         error_line (ascii ''1004'')
                           (PrintError (ascii ''character maps to <undefined>''))])"
    by (simp add: py_print_def example_consoles(6))
  then have 5: "process_subkey ascii_console rene_subkey []
       = (None, [10 # ascii ''User RID: 1004'',
                 ascii ''Error processing subkey 1004: character maps to <undefined>''])"
    by (simp add: example_lines)
  have "\<exists>u l p. decode_username jane_v_blob = Inr u \<and> decode_f_value never_f_blob = Inr (l, p)
          \<and> (\<forall>x. full_console ([] @ [header_line (ascii ''1001'')]) (username_line u) = None
                 \<and> full_console ([] @ [header_line (ascii ''1001''), username_line u])
                      (last_login_line l) = None
                 \<and> full_console ([] @ [header_line (ascii ''1001''), username_line u,
                                       last_login_line l])
                      (password_policy_line p) = Some x \<longrightarrow>
                 process_subkey full_console jane_subkey []
                   = py_print full_console (error_line (ascii ''1001'') x)
                       ([] @ [header_line (ascii ''1001''), username_line u,
                              last_login_line l]))"
    using one_block_per_subkey
      [where k = jane_subkey and console = full_console and out = "[]" and ks = "[]",
       THEN conjunct2, THEN conjunct2, THEN conjunct2, THEN conjunct1, rule_format,
       of "ascii ''1001''" jane_v_blob never_f_blob]
      example_names(1) example_values(3,4)
    by (simp add: full_console_def)
  then have "process_subkey full_console jane_subkey []
               = py_print full_console
                   (error_line (ascii ''1001'')
                      (PrintError (ascii ''[Errno 28] No space left on device'')))
                   ([] @ [header_line (ascii ''1001''), username_line (ascii ''Jane''),
                          last_login_line (ascii ''Never'')])"
    by (simp add: jane_decoded never_decoded full_console_def)
  then have 6: "process_subkey full_console jane_subkey []
       = (Some (PrintError (ascii ''[Errno 28] No space left on device'')),
          [10 # ascii ''User RID: 1001'', ascii ''Username: Jane'', ascii ''Last Login: Never''])"
    by (simp add: py_print_def full_console_def example_lines)
  note loop = one_block_per_subkey
      [where k = jane_subkey and console = plain_console and out = "[]"
         and ks = "[names_subkey, jane_subkey, no_f_subkey]",
       THEN conjunct2, THEN conjunct2, THEN conjunct2, THEN conjunct2, THEN conjunct2]
  have 7: "fst (user_loop plain_console [names_subkey, jane_subkey, no_f_subkey] []) = None"
    using loop [THEN conjunct2] by (simp add: example_consoles(1) example_names)
  have 8: "filter is_header
             (snd (user_loop plain_console [names_subkey, jane_subkey, no_f_subkey] []))
       = [10 # ascii ''User RID: 1001'', 10 # ascii ''User RID: 1002'']"
    using loop [THEN conjunct1] 7
    by (simp add: example_not_Names header_def example_names example_lines)
  show ?thesis by (intro conjI 1 2 3 4 5 6 7 8)
qed

text \<open>
  The claim as stated fails.  The subkey 1002 has a \<open>V\<close> value that decodes to \<open>Jane\<close>
  and no \<open>F\<close> value: its block holds the header and the error line only, the username
  is not put out.  On a console that writes ASCII text only, the subkey whose name holds
  the letter e acute gets no block at all, and the exception of \<open>print\<close> leaves the loop.
\<close>

theorem missing_F_blocks_username_counterexample:
  "not_Names no_f_subkey
   \<and> subkey_value no_f_subkey (ascii ''V'') = Inr jane_v_blob
   \<and> decode_username jane_v_blob = Inr (ascii ''Jane'')
   \<and> subkey_value no_f_subkey (ascii ''F'') = Inl (RegistryError (ascii ''no such value''))
   \<and> process_subkey plain_console no_f_subkey []
       = (None, [10 # ascii ''User RID: 1002'',
                 ascii ''Error processing subkey 1002: no such value''])
   \<and> ascii ''Username: Jane'' \<notin> set (snd (process_subkey plain_console no_f_subkey []))
   \<and> not_Names accent_subkey
   \<and> user_loop ascii_console [accent_subkey] []
       = (Some (PrintError (ascii ''character maps to <undefined>'')), [])"
proof -
  have t: "subkey_try plain_console no_f_subkey [header_line (ascii ''1002'')]
             = (Some (RegistryError (ascii ''no such value'')), [header_line (ascii ''1002'')])"
    using subkey_try_cases(2) [OF example_values(1) example_values(2)] .
  have "process_subkey plain_console no_f_subkey []
          = py_print plain_console
              (error_line (ascii ''1002'') (RegistryError (ascii ''no such value'')))
              [header_line (ascii ''1002'')]"
    using process_subkey_cases(4)
      [of no_f_subkey "ascii ''1002''" plain_console "[]"
          "RegistryError (ascii ''no such value'')" "[header_line (ascii ''1002'')]"]
      example_names(2) example_consoles(1) t
    by simp
  then have 1: "process_subkey plain_console no_f_subkey []
       = (None, [10 # ascii ''User RID: 1002'',
                 ascii ''Error processing subkey 1002: no such value''])"
    by (simp add: py_print_def example_consoles(1) example_lines)
  have 2: "ascii ''Username: Jane'' \<notin> set (snd (process_subkey plain_console no_f_subkey []))"
    unfolding 1 by (simp add: ascii_def)
  have 3: "process_subkey ascii_console accent_subkey []
             = (Some (PrintError (ascii ''character maps to <undefined>'')), [])"
    using process_subkey_cases(2)
      [of accent_subkey "ascii ''Ren'' @ [233]" ascii_console "[]"
          "PrintError (ascii ''character maps to <undefined>'')"]
      example_names(4) example_consoles(4)
    by simp
  have n: "ascii ''Ren'' @ [233] \<noteq> ascii ''Names''" by (simp add: ascii_def)
  have 4: "user_loop ascii_console [accent_subkey] []
       = (Some (PrintError (ascii ''character maps to <undefined>'')), [])"
    using user_loop_step [of accent_subkey "ascii ''Ren'' @ [233]" ascii_console "[]" "[]"]
      example_names(4) n 3
    by simp
  show ?thesis
    by (intro conjI example_not_Names(2) example_values(1) jane_decoded example_values(2)
          1 2 example_not_Names(4) 4)
qed

end
